theory Spec2Isabelle
  imports Complex_Main "HOL-Library.Product_Lexorder"
begin

section \<open>Values held in a table cell\<close>

text \<open>
  A Python \<^verbatim>\<open>datetime\<close> is a tuple of calendar fields; comparison is field by
  field from the year down, which is the lexicographic order on the tuple.
  \<^verbatim>\<open>datetime.date\<close> is the first three fields.
\<close>

datatype datetime =
  Datetime (year: nat) (month: nat) (day: nat)
           (hour: nat) (minute: nat) (second: nat) (microsecond: nat)

datatype date = Date nat nat nat

definition dt_key :: "datetime \<Rightarrow> nat \<times> nat \<times> nat \<times> nat \<times> nat \<times> nat \<times> nat" where
  "dt_key t = (year t, month t, day t, hour t, minute t, second t, microsecond t)"

definition dt_le :: "datetime \<Rightarrow> datetime \<Rightarrow> bool" where
  "dt_le a b = (dt_key a \<le> dt_key b)"


definition dt_max :: "datetime \<Rightarrow> datetime \<Rightarrow> datetime" where
  "dt_max a b = (if dt_le a b then b else a)"

definition leap_year :: "nat \<Rightarrow> bool" where
  "leap_year y = (y mod 4 = 0 \<and> (y mod 100 \<noteq> 0 \<or> y mod 400 = 0))"

definition days_in_month :: "nat \<Rightarrow> nat \<Rightarrow> nat" where
  "days_in_month y m =
     (if m = 2 then (if leap_year y then 29 else 28)
      else if m = 4 \<or> m = 6 \<or> m = 9 \<or> m = 11 then 30 else 31)"

text \<open>The values a Python \<^verbatim>\<open>datetime\<close> object can hold (its constructor rejects the rest).\<close>

definition valid_datetime :: "datetime \<Rightarrow> bool" where
  "valid_datetime t =
     (1 \<le> year t \<and> year t \<le> 9999 \<and> 1 \<le> month t \<and> month t \<le> 12 \<and>
      1 \<le> day t \<and> day t \<le> days_in_month (year t) (month t) \<and>
      hour t < 24 \<and> minute t < 60 \<and> second t < 60 \<and> microsecond t < 1000000)"

text \<open>
  Cell values. Integer, decimal and floating columns are all exact rationals here:
  rounding of Spark decimals and of doubles is outside the model.
\<close>

datatype val =
    VNull
  | VBool bool
  | VNum rat
  | VStr string
  | VTs datetime
  | VDate date
  | VList "val list"
  | VStruct "(string \<times> val) list"

datatype error =
    IndexError          \<comment> \<open>Python: list index out of range\<close>
  | AttributeError      \<comment> \<open>Python: attribute access on None\<close>
  | TypeError           \<comment> \<open>Python: iteration over None\<close>
  | AnalysisException   \<comment> \<open>Spark: unresolved or ambiguous column, type mismatch, missing path\<close>
  | ParseException      \<comment> \<open>Spark: a filter string that is not an SQL expression\<close>
  | OutOfModel          \<comment> \<open>a Spark or Python conversion this development does not cover\<close>

definition ebind :: "error + 'a \<Rightarrow> ('a \<Rightarrow> error + 'b) \<Rightarrow> error + 'b" where
  "ebind m f = (case m of Inl e \<Rightarrow> Inl e | Inr x \<Rightarrow> f x)"

fun emap :: "('a \<Rightarrow> error + 'b) \<Rightarrow> 'a list \<Rightarrow> error + 'b list" where
  "emap f [] = Inr []"
| "emap f (x # xs) =
     (case f x of Inl e \<Rightarrow> Inl e
      | Inr y \<Rightarrow> (case emap f xs of Inl e \<Rightarrow> Inl e | Inr ys \<Rightarrow> Inr (y # ys)))"

section \<open>Python string conversion and Spark's cast of a string literal\<close>

definition digit_char :: "nat \<Rightarrow> char" where
  "digit_char d = char_of (48 + d)"

definition is_digit :: "char \<Rightarrow> bool" where
  "is_digit c = (48 \<le> (of_char c :: nat) \<and> (of_char c :: nat) \<le> 57)"

definition digit_val :: "char \<Rightarrow> nat" where
  "digit_val c = of_char c - 48"

text \<open>
  \<^verbatim>\<open>"%02d" % n\<close>, \<^verbatim>\<open>"%04d" % n\<close> and \<^verbatim>\<open>"%06d" % n\<close> for a field that fits the width, as every
  field of a datetime does.
\<close>

definition digits2 :: "nat \<Rightarrow> string" where
  "digits2 n = [digit_char (n div 10 mod 10), digit_char (n mod 10)]"

definition digits4 :: "nat \<Rightarrow> string" where
  "digits4 n = digits2 (n div 100) @ digits2 (n mod 100)"

definition digits6 :: "nat \<Rightarrow> string" where
  "digits6 n = digits2 (n div 10000) @ digits4 (n mod 10000)"

fun digits_value :: "nat \<Rightarrow> string \<Rightarrow> nat option" where
  "digits_value acc [] = Some acc"
| "digits_value acc (c # cs) =
     (if is_digit c then digits_value (10 * acc + digit_val c) cs else None)"

definition nat_of_digits :: "string \<Rightarrow> nat option" where
  "nat_of_digits s = (if s = [] then None else digits_value 0 s)"

text \<open>
  \<^verbatim>\<open>str(datetime)\<close> is \<^verbatim>\<open>isoformat(sep=' ')\<close>: \<^verbatim>\<open>YYYY-MM-DD HH:MM:SS\<close>, followed by
  \<^verbatim>\<open>.ffffff\<close> only when the microsecond field is not zero.
\<close>

definition str_datetime :: "datetime \<Rightarrow> string" where
  "str_datetime t =
     digits4 (year t) @ ''-'' @ digits2 (month t) @ ''-'' @ digits2 (day t) @ '' '' @
     digits2 (hour t) @ '':'' @ digits2 (minute t) @ '':'' @ digits2 (second t) @
     (if microsecond t = 0 then [] else ''.'' @ digits6 (microsecond t))"

text \<open>
  \<^verbatim>\<open>str(x)\<close> as an f-string applies it to the value that \<^verbatim>\<open>collect()[0][0]\<close> hands back.
  Only the cases the partition column can produce are covered: a timestamp, a string
  and \<^verbatim>\<open>None\<close>.
\<close>

fun py_str :: "val \<Rightarrow> error + string" where
  "py_str VNull = Inr ''None''"
| "py_str (VStr s) = Inr s"
| "py_str (VTs t) = Inr (str_datetime t)"
| "py_str (VBool b) = Inr (if b then ''True'' else ''False'')"
| "py_str _ = Inl OutOfModel"

text \<open>
  Spark's cast of a string to a timestamp, for the fixed-width form
  \<^verbatim>\<open>YYYY-MM-DD HH:MM:SS[.f{1,6}]\<close>; a string that is not a timestamp casts to NULL
  (\<open>None\<close>). Spark accepts further spellings (one-digit fields, a \<^verbatim>\<open>T\<close> separator,
  zone suffixes) that are not covered and cast to NULL here.
\<close>

definition cast_fraction :: "string \<Rightarrow> nat option" where
  "cast_fraction s =
     (if s = [] then Some 0
      else if hd s = CHR ''.'' \<and> length (tl s) \<le> 6 then
        map_option (\<lambda>n. n * 10 ^ (6 - length (tl s))) (nat_of_digits (tl s))
      else None)"

definition cast_timestamp :: "string \<Rightarrow> datetime option" where
  "cast_timestamp s =
     (case s of
        y1 # y2 # y3 # y4 # c1 # m1 # m2 # c2 # d1 # d2 # c3 #
        h1 # h2 # c4 # n1 # n2 # c5 # s1 # s2 # fraction \<Rightarrow>
          (if c1 \<noteq> CHR ''-'' \<or> c2 \<noteq> CHR ''-'' \<or> c3 \<noteq> CHR '' '' \<or>
              c4 \<noteq> CHR '':'' \<or> c5 \<noteq> CHR '':'' then None
           else
             Option.bind (nat_of_digits [y1, y2, y3, y4]) (\<lambda>y.
             Option.bind (nat_of_digits [m1, m2]) (\<lambda>mo.
             Option.bind (nat_of_digits [d1, d2]) (\<lambda>d.
             Option.bind (nat_of_digits [h1, h2]) (\<lambda>h.
             Option.bind (nat_of_digits [n1, n2]) (\<lambda>mi.
             Option.bind (nat_of_digits [s1, s2]) (\<lambda>sec.
             Option.bind (cast_fraction fraction) (\<lambda>us.
               let t = Datetime y mo d h mi sec us
               in if valid_datetime t then Some t else None))))))))
      | _ \<Rightarrow> None)"

section \<open>DataFrames\<close>

text \<open>
  A DataFrame is an ordered schema and a list of rows. Every attribute of a schema has an
  identity besides its name: after a join two attributes may carry the same name, and
  \<^verbatim>\<open>df["c"]\<close> refers to the attribute of \<^verbatim>\<open>df\<close>, not to the name. Spark leaves the order
  of rows open; every operation here keeps the order of its input.
\<close>

record column =
  cid :: nat
  cname :: string

record dataframe =
  schema :: "column list"
  rows :: "val list list"

definition cell :: "val list \<Rightarrow> nat \<Rightarrow> val" where
  "cell r i = (if i < length r then r ! i else VNull)"

definition columns :: "dataframe \<Rightarrow> string list" where
  "columns df = map cname (schema df)"

text \<open>Resolution of a name: exactly one attribute of that name, else an analysis error.\<close>

definition resolve :: "column list \<Rightarrow> string \<Rightarrow> error + nat" where
  "resolve s n =
     (case filter (\<lambda>i. cname (s ! i) = n) [0..<length s] of
        [i] \<Rightarrow> Inr i
      | _ \<Rightarrow> Inl AnalysisException)"

text \<open>\<^verbatim>\<open>df["c"]\<close>\<close>

definition getitem :: "dataframe \<Rightarrow> string \<Rightarrow> error + column" where
  "getitem df n = ebind (resolve (schema df) n) (\<lambda>i. Inr (schema df ! i))"

text \<open>An attribute created by an expression gets an identity no attribute of the frame has.\<close>

definition fresh_cid :: "column list \<Rightarrow> nat" where
  "fresh_cid s = Suc (fold max (map cid s) 0)"

subsection \<open>Column expressions (\<^verbatim>\<open>pyspark.sql.functions\<close>)\<close>

datatype expr =
    col string
  | lit val
  | cast expr string      \<comment> \<open>\<^verbatim>\<open>e.cast("date")\<close>\<close>
  | struct "string list"

datatype aggregate =
    spark_sum string
  | spark_mean string
  | collect_list expr

definition cast_date_string :: "string \<Rightarrow> val" where
  "cast_date_string s =
     (case s of
        y1 # y2 # y3 # y4 # c1 # m1 # m2 # c2 # d1 # d2 # rest \<Rightarrow>
          (if c1 \<noteq> CHR ''-'' \<or> c2 \<noteq> CHR ''-'' \<or>
              (rest \<noteq> [] \<and> hd rest \<noteq> CHR '' '' \<and> hd rest \<noteq> CHR ''T'') then VNull
           else
             (case nat_of_digits [y1, y2, y3, y4] of None \<Rightarrow> VNull | Some y \<Rightarrow>
             (case nat_of_digits [m1, m2] of None \<Rightarrow> VNull | Some m \<Rightarrow>
             (case nat_of_digits [d1, d2] of None \<Rightarrow> VNull | Some d \<Rightarrow>
                if 1 \<le> y \<and> 1 \<le> m \<and> m \<le> 12 \<and> 1 \<le> d \<and> d \<le> days_in_month y m
                then VDate (Date y m d) else VNull))))
      | _ \<Rightarrow> VNull)"

text \<open>
  The cast to \<^verbatim>\<open>date\<close>: a timestamp loses its time of day, a string is parsed (NULL when it
  is not a date), NULL stays NULL; Spark refuses the cast of any other type. Other target
  types are not used by the units and are not covered.
\<close>

fun cast_val :: "string \<Rightarrow> val \<Rightarrow> error + val" where
  "cast_val ty v =
     (if ty \<noteq> ''date'' then Inl OutOfModel
      else (case v of
              VNull \<Rightarrow> Inr VNull
            | VTs t \<Rightarrow> Inr (VDate (Date (year t) (month t) (day t)))
            | VDate d \<Rightarrow> Inr (VDate d)
            | VStr s \<Rightarrow> Inr (cast_date_string s)
            | _ \<Rightarrow> Inl AnalysisException))"

fun eval_expr :: "column list \<Rightarrow> expr \<Rightarrow> val list \<Rightarrow> error + val" where
  "eval_expr s (col n) r = ebind (resolve s n) (\<lambda>i. Inr (cell r i))"
| "eval_expr s (lit v) r = Inr v"
| "eval_expr s (cast e ty) r = ebind (eval_expr s e r) (cast_val ty)"
| "eval_expr s (struct ns) r =
     ebind (emap (\<lambda>n. ebind (resolve s n) (\<lambda>i. Inr (n, cell r i))) ns) (\<lambda>fs. Inr (VStruct fs))"

text \<open>
  Spark resolves the names of an expression against the schema before it touches a row,
  so an unresolved name fails on an empty frame too.
\<close>

fun analyse :: "column list \<Rightarrow> expr \<Rightarrow> error + unit" where
  "analyse s (col n) = ebind (resolve s n) (\<lambda>_. Inr ())"
| "analyse s (lit v) = Inr ()"
| "analyse s (cast e ty) = analyse s e"
| "analyse s (struct ns) = ebind (emap (resolve s) ns) (\<lambda>_. Inr ())"

subsection \<open>Transformations\<close>

text \<open>\<^verbatim>\<open>df.select([col(..), ..])\<close>; only plain column references are selected by the units.\<close>

fun select_index :: "column list \<Rightarrow> expr \<Rightarrow> error + nat" where
  "select_index s (col n) = resolve s n"
| "select_index s _ = Inl OutOfModel"

definition select :: "dataframe \<Rightarrow> expr list \<Rightarrow> error + dataframe" where
  "select df es =
     ebind (emap (select_index (schema df)) es) (\<lambda>is.
       Inr \<lparr>schema = map (\<lambda>i. schema df ! i) is,
            rows = map (\<lambda>r. map (cell r) is) (rows df)\<rparr>)"

definition pad :: "nat \<Rightarrow> val list \<Rightarrow> val list" where
  "pad n r = take n (r @ replicate n VNull)"

text \<open>
  \<^verbatim>\<open>df.withColumn(n, e)\<close>: every attribute named \<open>n\<close> is replaced in place by the value of
  \<open>e\<close>; when there is none, the new attribute is appended.
\<close>

definition withColumn :: "dataframe \<Rightarrow> string \<Rightarrow> expr \<Rightarrow> error + dataframe" where
  "withColumn df n e =
     ebind (analyse (schema df) e) (\<lambda>_.
     ebind (emap (eval_expr (schema df) e) (rows df)) (\<lambda>vs.
       let new = \<lparr>cid = fresh_cid (schema df), cname = n\<rparr>
       in if n \<in> set (columns df) then
            Inr \<lparr>schema = map (\<lambda>c. if cname c = n then new else c) (schema df),
                 rows = map (\<lambda>(r, v). map (\<lambda>(c, x). if cname c = n then v else x)
                                           (zip (schema df) (pad (length (schema df)) r)))
                            (zip (rows df) vs)\<rparr>
          else
            Inr \<lparr>schema = schema df @ [new],
                 rows = map (\<lambda>(r, v). pad (length (schema df)) r @ [v]) (zip (rows df) vs)\<rparr>))"

fun efilter :: "('a \<Rightarrow> error + bool) \<Rightarrow> 'a list \<Rightarrow> error + 'a list" where
  "efilter p [] = Inr []"
| "efilter p (x # xs) =
     (case p x of Inl e \<Rightarrow> Inl e
      | Inr b \<Rightarrow> (case efilter p xs of Inl e \<Rightarrow> Inl e
                  | Inr ys \<Rightarrow> Inr (if b then x # ys else ys)))"

text \<open>
  \<^verbatim>\<open>df.filter(column)\<close>: a row stays when the condition is true; false and NULL drop it;
  a condition that is not boolean is an analysis error.
\<close>

fun truth :: "val \<Rightarrow> error + bool" where
  "truth (VBool b) = Inr b"
| "truth VNull = Inr False"
| "truth _ = Inl AnalysisException"

definition filter_column :: "dataframe \<Rightarrow> expr \<Rightarrow> error + dataframe" where
  "filter_column df e =
     ebind (analyse (schema df) e) (\<lambda>_.
     ebind (efilter (\<lambda>r. ebind (eval_expr (schema df) e r) truth) (rows df)) (\<lambda>rs.
       Inr \<lparr>schema = schema df, rows = rs\<rparr>))"

text \<open>\<^verbatim>\<open>df.drop(c)\<close> for an attribute reference \<open>c\<close>; an attribute that is absent drops nothing.\<close>

definition keep_where :: "bool list \<Rightarrow> 'a list \<Rightarrow> 'a list" where
  "keep_where m xs = map snd (filter fst (zip m xs))"

definition drop_column :: "dataframe \<Rightarrow> column \<Rightarrow> dataframe" where
  "drop_column df c =
     (let m = map (\<lambda>c'. c' \<noteq> c) (schema df)
      in \<lparr>schema = keep_where m (schema df),
          rows = map (\<lambda>r. keep_where m (pad (length (schema df)) r)) (rows df)\<rparr>)"

text \<open>
  \<^verbatim>\<open>l.join(r, k, how)\<close> on a column name: the key appears once, taken from the left side, then
  the other attributes of the left, then those of the right. NULL keys match nothing.
\<close>

datatype how = how_inner | how_left

definition remove_nth :: "nat \<Rightarrow> 'a list \<Rightarrow> 'a list" where
  "remove_nth i xs = take i xs @ drop (Suc i) xs"

definition join :: "dataframe \<Rightarrow> dataframe \<Rightarrow> string \<Rightarrow> how \<Rightarrow> error + dataframe" where
  "join l r k h =
     ebind (resolve (schema l) k) (\<lambda>i.
     ebind (resolve (schema r) k) (\<lambda>j.
       let nl = length (schema l); nr = length (schema r);
           out = (\<lambda>a b. cell a i # remove_nth i (pad nl a) @ b)
       in Inr \<lparr>schema = schema l ! i # remove_nth i (schema l) @ remove_nth j (schema r),
               rows = concat (map (\<lambda>a.
                 let ms = filter (\<lambda>b. cell a i \<noteq> VNull \<and> cell b j = cell a i) (rows r)
                 in if ms = [] then
                      (if h = how_left then [out a (replicate (nr - 1) VNull)] else [])
                    else map (\<lambda>b. out a (remove_nth j (pad nr b))) ms) (rows l))\<rparr>))"

text \<open>
  \<^verbatim>\<open>df.groupBy(k).agg(a1.alias(n1), ..)\<close>: one row per distinct key value (NULL is a key
  value), in the order of first occurrence. \<^verbatim>\<open>sum\<close> and \<^verbatim>\<open>mean\<close> skip NULL and are NULL
  over no value; \<^verbatim>\<open>collect_list\<close> skips NULL.
\<close>

fun numbers :: "val list \<Rightarrow> error + rat list" where
  "numbers [] = Inr []"
| "numbers (VNull # vs) = numbers vs"
| "numbers (VNum q # vs) = ebind (numbers vs) (\<lambda>qs. Inr (q # qs))"
| "numbers (_ # vs) = Inl AnalysisException"

fun eval_aggregate :: "column list \<Rightarrow> aggregate \<Rightarrow> val list list \<Rightarrow> error + val" where
  "eval_aggregate s (spark_sum n) rs =
     ebind (resolve s n) (\<lambda>i. ebind (numbers (map (\<lambda>r. cell r i) rs)) (\<lambda>qs.
       Inr (if qs = [] then VNull else VNum (sum_list qs))))"
| "eval_aggregate s (spark_mean n) rs =
     ebind (resolve s n) (\<lambda>i. ebind (numbers (map (\<lambda>r. cell r i) rs)) (\<lambda>qs.
       Inr (if qs = [] then VNull else VNum (sum_list qs / of_nat (length qs)))))"
| "eval_aggregate s (collect_list e) rs =
     ebind (emap (eval_expr s e) rs) (\<lambda>vs. Inr (VList (filter (\<lambda>v. v \<noteq> VNull) vs)))"

fun analyse_aggregate :: "column list \<Rightarrow> aggregate \<Rightarrow> error + unit" where
  "analyse_aggregate s (spark_sum n) = ebind (resolve s n) (\<lambda>_. Inr ())"
| "analyse_aggregate s (spark_mean n) = ebind (resolve s n) (\<lambda>_. Inr ())"
| "analyse_aggregate s (collect_list e) = analyse s e"

definition first_occurrences :: "'a list \<Rightarrow> 'a list" where
  "first_occurrences xs = rev (remdups (rev xs))"

definition groupBy_agg ::
  "dataframe \<Rightarrow> string \<Rightarrow> (aggregate \<times> string) list \<Rightarrow> error + dataframe" where
  "groupBy_agg df k aggs =
     ebind (resolve (schema df) k) (\<lambda>i.
     ebind (emap (\<lambda>(a, n). analyse_aggregate (schema df) a) aggs) (\<lambda>_.
     ebind (emap (\<lambda>g.
              ebind (emap (\<lambda>(a, n). eval_aggregate (schema df) a
                                      (filter (\<lambda>r. cell r i = g) (rows df))) aggs)
                    (\<lambda>vs. Inr (g # vs)))
            (first_occurrences (map (\<lambda>r. cell r i) (rows df)))) (\<lambda>rs.
       Inr \<lparr>schema = schema df ! i #
                      map (\<lambda>(j, (a, n)). \<lparr>cid = fresh_cid (schema df) + j, cname = n\<rparr>)
                          (zip [0..<length aggs] aggs),
            rows = rs\<rparr>)))"

subsection \<open>Filter by an SQL string\<close>

text \<open>
  \<^verbatim>\<open>df.filter(str)\<close> parses \<open>str\<close> as an SQL expression. The fragment covered is what the
  units build: comparisons \<^verbatim>\<open>name = 'literal'\<close> joined by the keyword \<^verbatim>\<open>AND\<close>. Tokens are
  names, \<^verbatim>\<open>=\<close> and quoted literals, separated by blanks. An expression may end in an alias
  (a name that is no operator keyword) and nothing may follow an alias, which is the one
  rule of Spark's grammar outside the fragment that is used here to report a parse error;
  every other input outside the fragment is reported as \<open>OutOfModel\<close>.
\<close>

datatype token = TIdent string | TEq | TString string

datatype lex_state = Start | InIdent string | InString string

definition is_letter :: "char \<Rightarrow> bool" where
  "is_letter c = (let n = (of_char c :: nat)
                  in (65 \<le> n \<and> n \<le> 90) \<or> (97 \<le> n \<and> n \<le> 122) \<or> n = 95)"

definition upper_char :: "char \<Rightarrow> char" where
  "upper_char c = (let n = (of_char c :: nat)
                   in if 97 \<le> n \<and> n \<le> 122 then char_of (n - 32) else c)"

definition econs :: "'a \<Rightarrow> error + 'a list \<Rightarrow> error + 'a list" where
  "econs x m = ebind m (\<lambda>xs. Inr (x # xs))"

fun lex :: "lex_state \<Rightarrow> string \<Rightarrow> error + token list" where
  "lex Start [] = Inr []"
| "lex (InIdent w) [] = Inr [TIdent w]"
| "lex (InString w) [] = Inl ParseException"
| "lex Start (c # cs) =
     (if c = CHR '' '' then lex Start cs
      else if c = CHR ''='' then econs TEq (lex Start cs)
      else if c = CHR 0x27 then lex (InString []) cs
      else if is_letter c then lex (InIdent [c]) cs
      else Inl OutOfModel)"
| "lex (InIdent w) (c # cs) =
     (if is_letter c \<or> is_digit c then lex (InIdent (w @ [c])) cs
      else if c = CHR '' '' then econs (TIdent w) (lex Start cs)
      else if c = CHR ''='' then econs (TIdent w) (econs TEq (lex Start cs))
      else if c = CHR 0x27 then econs (TIdent w) (lex (InString []) cs)
      else Inl OutOfModel)"
| "lex (InString w) (c # cs) =
     (if c = CHR 0x27 then econs (TString w) (lex Start cs)
      else if c = CHR 0x5C then Inl OutOfModel
      else lex (InString (w @ [c])) cs)"

definition operator_keywords :: "string list" where
  "operator_keywords =
     [''AND'', ''OR'', ''NOT'', ''IS'', ''IN'', ''LIKE'', ''ILIKE'', ''RLIKE'', ''REGEXP'',
      ''BETWEEN'', ''DIV'', ''AS'', ''COLLATE'', ''AT'']"

definition keyword :: "string \<Rightarrow> bool" where
  "keyword w = (map upper_char w \<in> set operator_keywords)"

fun parse_filter :: "token list \<Rightarrow> error + (string \<times> string) list" where
  "parse_filter (TIdent k # TEq # TString v # rest) =
     (if keyword k then Inl OutOfModel
      else (case rest of
              [] \<Rightarrow> Inr [(k, v)]
            | TIdent a # rest' \<Rightarrow>
                (if map upper_char a = ''AND'' then econs (k, v) (parse_filter rest')
                 else if keyword a \<or> rest' = [] then Inl OutOfModel
                 else Inl ParseException)
            | _ \<Rightarrow> Inl OutOfModel))"
| "parse_filter _ = Inl OutOfModel"

text \<open>
  A column compared with a string literal: Spark casts the literal to the type of the
  column. The comparison is NULL (\<open>None\<close>) when either side is NULL.
\<close>

fun sql_eq_literal :: "val \<Rightarrow> string \<Rightarrow> error + bool option" where
  "sql_eq_literal VNull l = Inr None"
| "sql_eq_literal (VStr s) l = Inr (Some (s = l))"
| "sql_eq_literal (VTs t) l = Inr (map_option (\<lambda>t'. t = t') (cast_timestamp l))"
| "sql_eq_literal (VDate d) l =
     Inr (case cast_date_string l of VDate d' \<Rightarrow> Some (d = d') | _ \<Rightarrow> None)"
| "sql_eq_literal _ l = Inl OutOfModel"

definition filter_string :: "dataframe \<Rightarrow> string \<Rightarrow> error + dataframe" where
  "filter_string df q =
     ebind (lex Start q) (\<lambda>ts.
     ebind (parse_filter ts) (\<lambda>cs.
     ebind (emap (\<lambda>(k, l). ebind (resolve (schema df) k) (\<lambda>i. Inr (i, l))) cs) (\<lambda>ics.
     ebind (efilter (\<lambda>r. ebind (emap (\<lambda>(i, l). sql_eq_literal (cell r i) l) ics)
                                (\<lambda>bs. Inr (list_all (\<lambda>b. b = Some True) bs)))
                    (rows df)) (\<lambda>rs.
       Inr \<lparr>schema = schema df, rows = rs\<rparr>))))"

text \<open>
  \<^verbatim>\<open>df.selectExpr("max(c)").collect()[0][0]\<close>: the greatest value of the column that is not
  NULL, \<^verbatim>\<open>None\<close> when there is none. Covered for a timestamp column.
\<close>

fun max_timestamp :: "datetime option \<Rightarrow> val list \<Rightarrow> error + val" where
  "max_timestamp acc [] = Inr (case acc of None \<Rightarrow> VNull | Some t \<Rightarrow> VTs t)"
| "max_timestamp acc (VNull # vs) = max_timestamp acc vs"
| "max_timestamp acc (VTs t # vs) =
     max_timestamp (Some (case acc of None \<Rightarrow> t | Some a \<Rightarrow> dt_max a t)) vs"
| "max_timestamp acc (_ # vs) = Inl OutOfModel"

definition selectExpr_max :: "dataframe \<Rightarrow> string \<Rightarrow> error + val" where
  "selectExpr_max df n =
     ebind (resolve (schema df) n) (\<lambda>i. max_timestamp None (map (\<lambda>r. cell r i) (rows df)))"

subsection \<open>Storage\<close>

text \<open>
  The Spark session gives access to the tables in storage, addressed by format and path.
  \<^verbatim>\<open>spark.read.format(f).load(p)\<close> fails when nothing is stored there.
\<close>

type_synonym spark_session = "string \<times> string \<Rightarrow> dataframe option"

definition load :: "spark_session \<Rightarrow> string \<Rightarrow> string \<Rightarrow> error + dataframe" where
  "load spark f p = (case spark (f, p) of None \<Rightarrow> Inl AnalysisException | Some df \<Rightarrow> Inr df)"

text \<open>\<^verbatim>\<open>sep.join(xs)\<close>\<close>

fun str_join :: "string \<Rightarrow> string list \<Rightarrow> string" where
  "str_join sep [] = []"
| "str_join sep [x] = x"
| "str_join sep (x # xs) = x @ sep @ str_join sep xs"

section \<open>The dataset envelope and the table unit\<close>

text \<open>\<^verbatim>\<open>ETLDataSet\<close>: a DataFrame with the identity and storage metadata of its table.\<close>

record ETLDataSet =
  name :: string
  current_data :: dataframe
  primary_keys :: "string list"
  storage_path :: string
  data_format :: string
  database :: string
  partition_keys :: "string list"

text \<open>
  An upstream table class, as \<^verbatim>\<open>extract_upstream\<close> uses it: it is instantiated with the two
  flags, the instance may be run, and it is read. The upstream classes of the two gold
  units are not part of the sources at hand, so what their methods do is a parameter:
  \<open>'i\<close> is the state of an instance, \<open>'w\<close> everything outside it that \<^verbatim>\<open>run\<close> may change
  (the tables in storage, the clock).
\<close>

record ('i, 'w) table_class =
  class_name :: string
  new :: "bool \<Rightarrow> bool \<Rightarrow> 'i"
  run :: "'i \<Rightarrow> 'w \<Rightarrow> error + 'i \<times> 'w"
  read :: "'i \<Rightarrow> 'w \<Rightarrow> error + ETLDataSet"

text \<open>The attributes of a \<^verbatim>\<open>TableETL\<close> instance (\<^verbatim>\<open>self.x\<close> is \<open>self_x\<close>).\<close>

record ('i, 'w) TableETL =
  self_upstream_tables :: "('i, 'w) table_class list option"
  self_name :: string
  self_primary_keys :: "string list"
  self_storage_path :: string
  self_data_format :: string
  self_database :: string
  self_partition_keys :: "string list"
  self_run_upstream :: bool
  self_write_data :: bool
  self_current_data :: "dataframe option"

text \<open>
  The constructors, with the defaults of the two classes. The default upstream classes
  (\<^verbatim>\<open>WideOrdersGoldETL\<close>; the five silver classes) are not in the sources, so the list of
  upstream classes is an argument.
\<close>

definition DailyOrderMetricsGoldETL ::
  "('i, 'w) table_class list option \<Rightarrow> bool \<Rightarrow> bool \<Rightarrow> ('i, 'w) TableETL" where
  "DailyOrderMetricsGoldETL upstream_tables run_upstream write_data =
     \<lparr>self_upstream_tables = upstream_tables,
      self_name = ''daily_order_metrics'',
      self_primary_keys = [''order_ts''],
      self_storage_path = ''s3a://rainforest/delta/gold/daily_order_metrics'',
      self_data_format = ''delta'',
      self_database = ''rainforest'',
      self_partition_keys = [''etl_inserted''],
      self_run_upstream = run_upstream,
      self_write_data = write_data,
      self_current_data = None\<rparr>"

definition WideOrderItemsGoldETL ::
  "('i, 'w) table_class list option \<Rightarrow> bool \<Rightarrow> bool \<Rightarrow> ('i, 'w) TableETL" where
  "WideOrderItemsGoldETL upstream_tables run_upstream write_data =
     \<lparr>self_upstream_tables = upstream_tables,
      self_name = ''wide_order_items'',
      self_primary_keys = [''order_item_id''],
      self_storage_path = ''s3a://rainforest/delta/gold/wide_order_items'',
      self_data_format = ''delta'',
      self_database = ''rainforest'',
      self_partition_keys = [''etl_inserted''],
      self_run_upstream = run_upstream,
      self_write_data = write_data,
      self_current_data = None\<rparr>"

text \<open>\<^verbatim>\<open>ETLDataSet(name=self.name, current_data=d, primary_keys=self.primary_keys, ..)\<close>\<close>

definition dataset_of :: "('i, 'w) TableETL \<Rightarrow> dataframe \<Rightarrow> ETLDataSet" where
  "dataset_of self d =
     \<lparr>name = self_name self,
      current_data = d,
      primary_keys = self_primary_keys self,
      storage_path = self_storage_path self,
      data_format = self_data_format self,
      database = self_database self,
      partition_keys = self_partition_keys self\<rparr>"

subsection \<open>\<^verbatim>\<open>extract_upstream\<close>\<close>

text \<open>
  The two classes have the same \<^verbatim>\<open>extract_upstream\<close>, word for word. The loop is modelled
  with the list of envelopes built so far; besides the outside world it threads the
  sequence of calls the loop has made on the upstream classes.
\<close>

datatype call = Construct string bool bool | Run string | Read string

fun extract_loop ::
  "('i, 'w) TableETL \<Rightarrow> ('i, 'w) table_class list \<Rightarrow> ETLDataSet list \<Rightarrow> 'w \<times> call list \<Rightarrow>
   error + ETLDataSet list \<times> 'w \<times> call list" where
  "extract_loop self [] upstream_etl_datasets st = Inr (upstream_etl_datasets, st)"
| "extract_loop self (table_etl_class # rest) upstream_etl_datasets (w, calls) =
     (let table = new table_etl_class (self_run_upstream self) (self_write_data self);
          calls1 = calls @ [Construct (class_name table_etl_class)
                              (self_run_upstream self) (self_write_data self)]
      in ebind (if self_run_upstream self then
                  ebind (run table_etl_class table w) (\<lambda>(table', w').
                    Inr (table', w', calls1 @ [Run (class_name table_etl_class)]))
                else Inr (table, w, calls1)) (\<lambda>(table, w, calls2).
         ebind (read table_etl_class table w) (\<lambda>ds.
           extract_loop self rest (upstream_etl_datasets @ [ds])
             (w, calls2 @ [Read (class_name table_etl_class)]))))"

definition extract_upstream ::
  "('i, 'w) TableETL \<Rightarrow> 'w \<times> call list \<Rightarrow> error + ETLDataSet list \<times> 'w \<times> call list" where
  "extract_upstream self st =
     (case self_upstream_tables self of
        None \<Rightarrow> Inl TypeError
      | Some tables \<Rightarrow> extract_loop self tables [] st)"

subsection \<open>\<^verbatim>\<open>transform_upstream\<close>\<close>

text \<open>
  The clock: \<^verbatim>\<open>datetime.now()\<close> returns the next reading and moves on. A transform
  returns the envelope, the instance with its cache set, and the clock as it left it.
\<close>

record clock =
  readings :: "nat \<Rightarrow> datetime"
  taken :: nat

definition datetime_now :: "clock \<Rightarrow> datetime \<times> clock" where
  "datetime_now c = (readings c (taken c), c\<lparr>taken := Suc (taken c)\<rparr>)"

text \<open>\<^verbatim>\<open>xs[i]\<close> for an index that is not negative.\<close>

definition item :: "'a list \<Rightarrow> nat \<Rightarrow> error + 'a" where
  "item xs i = (if i < length xs then Inr (xs ! i) else Inl IndexError)"

definition DailyOrderMetrics_transform_upstream ::
  "('i, 'w) TableETL \<Rightarrow> ETLDataSet list \<Rightarrow> clock \<Rightarrow>
   error + ETLDataSet \<times> ('i, 'w) TableETL \<times> clock" where
  "DailyOrderMetrics_transform_upstream self upstream_datasets clk =
     ebind (item upstream_datasets 0) (\<lambda>ds0.
     ebind (withColumn (current_data ds0) ''order_date'' (cast (col ''order_ts'') ''date''))
       (\<lambda>wide_orders_data.
     ebind (filter_column wide_orders_data (col ''is_active'')) (\<lambda>wide_orders_data.
     ebind (groupBy_agg wide_orders_data ''order_date''
              [(spark_sum ''total_price'', ''total_price_sum''),
               (spark_mean ''total_price'', ''total_price_mean'')]) (\<lambda>daily_metrics_data.
     (case datetime_now clk of (current_timestamp, clk') \<Rightarrow>
     ebind (withColumn daily_metrics_data ''etl_inserted'' (lit (VTs current_timestamp)))
       (\<lambda>daily_metrics_data.
       let etl_dataset = dataset_of self daily_metrics_data
       in Inr (etl_dataset,
               self\<lparr>self_current_data := Some (current_data etl_dataset)\<rparr>,
               clk')))))))"

definition WideOrderItems_transform_upstream ::
  "('i, 'w) TableETL \<Rightarrow> ETLDataSet list \<Rightarrow> clock \<Rightarrow>
   error + ETLDataSet \<times> ('i, 'w) TableETL \<times> clock" where
  "WideOrderItems_transform_upstream self upstream_datasets clk =
     ebind (item upstream_datasets 0) (\<lambda>ds0.
     ebind (item upstream_datasets 1) (\<lambda>ds1.
     ebind (item upstream_datasets 2) (\<lambda>ds2.
     ebind (item upstream_datasets 3) (\<lambda>ds3.
     ebind (item upstream_datasets 4) (\<lambda>ds4.
     (let fact_order_items_data = current_data ds0;
          dim_product_data = current_data ds1;
          dim_seller_data = current_data ds2;
          product_category_data = current_data ds3;
          dim_category_data = current_data ds4
      in case datetime_now clk of (current_timestamp, clk') \<Rightarrow>
     ebind (join fact_order_items_data dim_product_data ''product_id'' how_left) (\<lambda>j1.
     ebind (join j1 dim_seller_data ''seller_id'' how_left) (\<lambda>wide_order_items_data.
     ebind (join product_category_data dim_category_data ''category_id'' how_inner) (\<lambda>j2.
     ebind (getitem dim_category_data ''etl_inserted'') (\<lambda>c_cat.
     ebind (getitem product_category_data ''etl_inserted'') (\<lambda>c_brg.
     (let product_category_enriched_data = drop_column (drop_column j2 c_cat) c_brg
      in
     ebind (groupBy_agg product_category_enriched_data ''product_id''
              [(collect_list (struct [''category_id'', ''category_name'']), ''categories'')])
       (\<lambda>product_category_data_product_grain.
     ebind (join wide_order_items_data product_category_data_product_grain
              ''product_id'' how_left) (\<lambda>wide_order_items_data.
     ebind (getitem fact_order_items_data ''etl_inserted'') (\<lambda>c_fact.
     ebind (getitem dim_product_data ''etl_inserted'') (\<lambda>c_prod.
     ebind (getitem dim_seller_data ''etl_inserted'') (\<lambda>c_sell.
     ebind (withColumn
              (drop_column (drop_column (drop_column wide_order_items_data c_fact) c_prod)
                 c_sell)
              ''etl_inserted'' (lit (VTs current_timestamp))) (\<lambda>wide_order_items_data.
       let etl_dataset = dataset_of self wide_order_items_data
       in Inr (etl_dataset,
               self\<lparr>self_current_data := Some (current_data etl_dataset)\<rparr>,
               clk')))))))))))))))))))"

subsection \<open>\<^verbatim>\<open>read\<close>\<close>

text \<open>
  The two \<^verbatim>\<open>read\<close> methods differ in the list \<^verbatim>\<open>selected_columns\<close> only, which is the first
  argument of the common body. \<^verbatim>\<open>partition_values\<close> is an optional dictionary from strings
  to strings, kept in insertion order; \<^verbatim>\<open>elif partition_values:\<close> holds for a dictionary
  that is not empty.
\<close>

definition equality_clause :: "string \<times> string \<Rightarrow> string" where
  "equality_clause kv = fst kv @ '' = '' @ [CHR 0x27] @ snd kv @ [CHR 0x27]"

definition read_selected ::
  "expr list \<Rightarrow> ('i, 'w) TableETL \<Rightarrow> (string \<times> string) list option \<Rightarrow> spark_session \<Rightarrow>
   error + ETLDataSet" where
  "read_selected selected_columns self partition_values spark =
     (if \<not> self_write_data self then
        (case self_current_data self of
           None \<Rightarrow> Inl AttributeError
         | Some d \<Rightarrow> ebind (select d selected_columns) (\<lambda>d'. Inr (dataset_of self d')))
      else
        ebind (case partition_values of
                 Some (kv # kvs) \<Rightarrow> Inr (str_join '' AND'' (map equality_clause (kv # kvs)))
               | _ \<Rightarrow>
                 ebind (load spark (self_data_format self) (self_storage_path self)) (\<lambda>df.
                 ebind (selectExpr_max df ''etl_inserted'') (\<lambda>latest_partition.
                 ebind (py_str latest_partition) (\<lambda>s.
                   Inr (''etl_inserted = '' @ [CHR 0x27] @ s @ [CHR 0x27])))))
          (\<lambda>partition_filter.
        ebind (load spark (self_data_format self) (self_storage_path self)) (\<lambda>df.
        ebind (filter_string df partition_filter) (\<lambda>fact_order_data.
        ebind (select fact_order_data selected_columns) (\<lambda>fact_order_data.
          Inr (dataset_of self fact_order_data))))))"

definition DailyOrderMetrics_selected_columns :: "expr list" where
  "DailyOrderMetrics_selected_columns =
     [col ''order_date'', col ''total_price_sum'', col ''total_price_mean'',
      col ''etl_inserted'']"

definition WideOrderItems_selected_columns :: "expr list" where
  "WideOrderItems_selected_columns =
     [col ''order_item_id'', col ''order_id'', col ''product_id'', col ''seller_id'',
      col ''quantity'', col ''base_price'', col ''actual_price'', col ''created_ts'',
      col ''tax'', col ''categories'', col ''etl_inserted'']"

definition DailyOrderMetrics_read ::
  "('i, 'w) TableETL \<Rightarrow> (string \<times> string) list option \<Rightarrow> spark_session \<Rightarrow>
   error + ETLDataSet" where
  "DailyOrderMetrics_read = read_selected DailyOrderMetrics_selected_columns"

definition WideOrderItems_read ::
  "('i, 'w) TableETL \<Rightarrow> (string \<times> string) list option \<Rightarrow> spark_session \<Rightarrow>
   error + ETLDataSet" where
  "WideOrderItems_read = read_selected WideOrderItems_selected_columns"

section \<open>Observations used to state the claims\<close>

text \<open>The values of the column named \<open>n\<close>, row by row: \<^verbatim>\<open>df.select(n).collect()\<close>.\<close>

definition column_values :: "dataframe \<Rightarrow> string \<Rightarrow> error + val list" where
  "column_values df n = ebind (resolve (schema df) n) (\<lambda>i. Inr (map (\<lambda>r. cell r i) (rows df)))"

text \<open>
  What the specification says \<^verbatim>\<open>extract_upstream\<close> does for one declared upstream class, in
  a world \<open>w\<close>: instantiate it with the two flags of the unit; if \<^verbatim>\<open>run_upstream\<close> is true, run
  the instance; read the instance. \<open>spec_extract_one\<close> is the envelope read and the world
  left behind, \<open>spec_calls_one\<close> the calls made on the class.
\<close>

definition spec_extract_one ::
  "('i, 'w) TableETL \<Rightarrow> ('i, 'w) table_class \<Rightarrow> 'w \<Rightarrow> error + ETLDataSet \<times> 'w" where
  "spec_extract_one self c w =
     ebind (if self_run_upstream self
            then run c (new c (self_run_upstream self) (self_write_data self)) w
            else Inr (new c (self_run_upstream self) (self_write_data self), w)) (\<lambda>(t, w').
     ebind (read c t w') (\<lambda>ds. Inr (ds, w')))"

definition spec_calls_one :: "('i, 'w) TableETL \<Rightarrow> ('i, 'w) table_class \<Rightarrow> call list" where
  "spec_calls_one self c =
     Construct (class_name c) (self_run_upstream self) (self_write_data self) #
     (if self_run_upstream self then [Run (class_name c)] else []) @
     [Read (class_name c)]"

section \<open>Units all the way down\<close>

text \<open>
  Modelled from the spec: the base class \<^verbatim>\<open>TableETL\<close> with its \<^verbatim>\<open>run()\<close>, and the upstream
  classes of the two gold units (\<^verbatim>\<open>WideOrdersGoldETL\<close>, the silver and the bronze classes),
  are not in the sources at hand. By the specification every unit's \<^verbatim>\<open>run()\<close> is
  \<^verbatim>\<open>extract_upstream\<close>, then \<^verbatim>\<open>transform_upstream\<close>, \<^verbatim>\<open>validate\<close> and \<^verbatim>\<open>write\<close>, and every unit
  extracts as the two gold units do. A unit class is its name, its declared upstream
  classes, what the rest of its \<^verbatim>\<open>run()\<close> does with the extracted envelopes (it leaves the
  data to cache and changes the outside world \<open>'x\<close>), and what its \<^verbatim>\<open>read()\<close> returns; the
  last two are parameters, given the \<^verbatim>\<open>write_data\<close> flag of the instance.

  \<open>table_class_of\<close> makes such a class an upstream class of the extraction loop. The world
  of the loop is the outside world together with a log: a \<^verbatim>\<open>run()\<close> adds the calls of its
  own extraction to the log, after those of the extractions below it.
\<close>

record unit_instance =
  inst_run_upstream :: bool
  inst_write_data :: bool
  inst_current_data :: "dataframe option"

datatype 'x unit_class =
  UnitClass (unit_name: string) (unit_upstream: "'x unit_class list")
    (unit_produce: "bool \<Rightarrow> ETLDataSet list \<Rightarrow> 'x \<Rightarrow> error + dataframe \<times> 'x")
    (unit_read: "bool \<Rightarrow> dataframe option \<Rightarrow> 'x \<Rightarrow> error + ETLDataSet")

text \<open>
  Modelled from the spec: the attributes of an instance of such a class. Extraction uses
  the upstream list and the two flags only; the storage metadata is left empty.
\<close>

definition unit_self ::
  "string \<Rightarrow> ('i, 'w) table_class list \<Rightarrow> bool \<Rightarrow> bool \<Rightarrow> ('i, 'w) TableETL" where
  "unit_self n tables ru wd =
     \<lparr>self_upstream_tables = Some tables, self_name = n, self_primary_keys = [],
      self_storage_path = [], self_data_format = [], self_database = [],
      self_partition_keys = [], self_run_upstream = ru, self_write_data = wd,
      self_current_data = None\<rparr>"

fun table_class_of :: "'x unit_class \<Rightarrow> (unit_instance, 'x \<times> call list) table_class" where
  "table_class_of (UnitClass n ups produce rd) =
     \<lparr>class_name = n,
      new = (\<lambda>ru wd. \<lparr>inst_run_upstream = ru, inst_write_data = wd, inst_current_data = None\<rparr>),
      run = (\<lambda>t (x, log).
        ebind (extract_upstream
                 (unit_self n (map table_class_of ups) (inst_run_upstream t) (inst_write_data t))
                 ((x, log), [])) (\<lambda>(dss, (x', log'), calls).
        ebind (produce (inst_write_data t) dss x') (\<lambda>(d, x'').
          Inr (t\<lparr>inst_current_data := Some d\<rparr>, (x'', log' @ calls))))),
      read = (\<lambda>t (x, log). rd (inst_write_data t) (inst_current_data t) x)\<rparr>"

text \<open>Every instantiation in a sequence of calls passes the flags \<open>ru\<close> and \<open>wd\<close>.\<close>

definition flags_in :: "bool \<Rightarrow> bool \<Rightarrow> call list \<Rightarrow> bool" where
  "flags_in ru wd cs =
     list_all (\<lambda>c. case c of Construct n a b \<Rightarrow> a = ru \<and> b = wd | _ \<Rightarrow> True) cs"

section \<open>The daily metrics as the specification states them\<close>









section \<open>The latest partition as the specification states it\<close>

text \<open>
  The partition column of a stored table holds the timestamps the transforms stamped, or
  NULL: \<open>stamp_or_null\<close>. A value is the latest of the column at position \<open>i\<close> of the rows
  \<open>rs\<close> when it is a timestamp and no timestamp of the column is later: it is the
  maximum of the column. A string is \<open>clean\<close> when it holds neither a quote nor a
  backslash, so that between quotes it is a literal with that value.
\<close>

definition clean :: "string \<Rightarrow> bool" where
  "clean s = list_all (\<lambda>c. c \<noteq> CHR 0x27 \<and> c \<noteq> CHR 0x5C) s"

definition stamp_or_null :: "val \<Rightarrow> bool" where
  "stamp_or_null v = (case v of VNull \<Rightarrow> True | VTs t \<Rightarrow> valid_datetime t | _ \<Rightarrow> False)"




section \<open>Example data\<close>

text \<open>
  Three ingestion timestamps in increasing order, and the stored table of daily metrics
  after three writes: two rows written at the first timestamp, one at each of the others.
  The stored table carries a column that is not published.
\<close>

definition ex_t1 :: datetime where "ex_t1 = Datetime 2024 1 15 10 30 0 0"
definition ex_t2 :: datetime where "ex_t2 = Datetime 2024 1 15 18 0 5 123456"
definition ex_t3 :: datetime where "ex_t3 = Datetime 2024 1 16 9 0 0 0"

definition ex_daily_published :: "column list" where
  "ex_daily_published =
     [\<lparr>cid = 0, cname = ''order_date''\<rparr>, \<lparr>cid = 1, cname = ''total_price_sum''\<rparr>,
      \<lparr>cid = 2, cname = ''total_price_mean''\<rparr>, \<lparr>cid = 3, cname = ''etl_inserted''\<rparr>]"

definition ex_daily_stored :: dataframe where
  "ex_daily_stored =
     \<lparr>schema = ex_daily_published @ [\<lparr>cid = 4, cname = ''audit_note''\<rparr>],
      rows = [[VDate (Date 2024 1 14), VNum 50, VNum 25, VTs ex_t1, VStr ''a''],
              [VDate (Date 2024 1 15), VNum 7, VNum 7, VTs ex_t1, VStr ''b''],
              [VDate (Date 2024 1 14), VNum 50, VNum 25, VTs ex_t2, VStr ''c''],
              [VDate (Date 2024 1 15), VNum 9, VNum 9, VTs ex_t3, VStr ''d'']]\<rparr>"

definition ex_spark :: spark_session where
  "ex_spark = (\<lambda>k. if k = (''delta'', ''s3a://rainforest/delta/gold/daily_order_metrics'')
                    then Some ex_daily_stored else None)"

definition ex_daily :: "bool \<Rightarrow> (unit, unit) TableETL" where
  "ex_daily write_data = DailyOrderMetricsGoldETL None True write_data"

text \<open>A wide order item as a transform leaves it in memory, with a column beyond the published ones.\<close>

definition ex_wide_published :: "column list" where
  "ex_wide_published =
     [\<lparr>cid = 1, cname = ''order_item_id''\<rparr>, \<lparr>cid = 2, cname = ''order_id''\<rparr>,
      \<lparr>cid = 0, cname = ''product_id''\<rparr>, \<lparr>cid = 3, cname = ''seller_id''\<rparr>,
      \<lparr>cid = 4, cname = ''quantity''\<rparr>, \<lparr>cid = 5, cname = ''base_price''\<rparr>,
      \<lparr>cid = 6, cname = ''actual_price''\<rparr>, \<lparr>cid = 7, cname = ''created_ts''\<rparr>,
      \<lparr>cid = 8, cname = ''tax''\<rparr>, \<lparr>cid = 10, cname = ''categories''\<rparr>,
      \<lparr>cid = 11, cname = ''etl_inserted''\<rparr>]"

definition ex_wide_row :: "val list" where
  "ex_wide_row =
     [VNum 1, VNum 100, VNum 500, VNum 10, VNum 2, VNum 100, VNum 90, VTs ex_t1, VNum 10,
      VList [VStruct [(''category_id'', VNum 3), (''category_name'', VStr ''Books'')]],
      VTs ex_t2]"

definition ex_wide_cached :: dataframe where
  "ex_wide_cached =
     \<lparr>schema = \<lparr>cid = 9, cname = ''product_name''\<rparr> # ex_wide_published,
      rows = [VStr ''Atlas'' # ex_wide_row]\<rparr>"

definition ex_wide :: "(unit, unit) TableETL" where
  "ex_wide = (WideOrderItemsGoldETL None True False)\<lparr>self_current_data := Some ex_wide_cached\<rparr>"

text \<open>
  The wide orders of the aggregation example: two active orders of 20.00 and 30.00 and an
  inactive order on one day, and an active order on the next day.
\<close>

definition ex_wide_orders :: dataframe where
  "ex_wide_orders =
     \<lparr>schema = [\<lparr>cid = 0, cname = ''order_id''\<rparr>, \<lparr>cid = 1, cname = ''order_ts''\<rparr>,
                \<lparr>cid = 2, cname = ''total_price''\<rparr>, \<lparr>cid = 3, cname = ''is_active''\<rparr>],
      rows = [[VNum 1, VTs ex_t1, VNum 20, VBool True],
              [VNum 2, VTs ex_t2, VNum 30, VBool True],
              [VNum 3, VTs ex_t2, VNum 1000, VBool False],
              [VNum 4, VTs ex_t3, VNum 7, VBool True]]\<rparr>"

definition ex_clock :: clock where
  "ex_clock = \<lparr>readings = (\<lambda>n. Datetime 2024 2 1 0 0 n 0), taken = 0\<rparr>"

text \<open>The five upstream tables of the wide order items, one ingestion column each.\<close>

definition ex_fact_order_items :: dataframe where
  "ex_fact_order_items =
     \<lparr>schema = [\<lparr>cid = 0, cname = ''order_item_id''\<rparr>, \<lparr>cid = 1, cname = ''order_id''\<rparr>,
                \<lparr>cid = 2, cname = ''product_id''\<rparr>, \<lparr>cid = 3, cname = ''seller_id''\<rparr>,
                \<lparr>cid = 4, cname = ''quantity''\<rparr>, \<lparr>cid = 5, cname = ''base_price''\<rparr>,
                \<lparr>cid = 6, cname = ''actual_price''\<rparr>, \<lparr>cid = 7, cname = ''created_ts''\<rparr>,
                \<lparr>cid = 8, cname = ''tax''\<rparr>, \<lparr>cid = 9, cname = ''etl_inserted''\<rparr>],
      rows = [[VNum 1, VNum 100, VNum 500, VNum 10, VNum 2, VNum 100, VNum 90, VTs ex_t1,
               VNum 10, VTs ex_t2],
              [VNum 2, VNum 100, VNum 501, VNum 11, VNum 1, VNum 40, VNum 36, VTs ex_t1,
               VNum 4, VTs ex_t2]]\<rparr>"

definition ex_dim_product :: dataframe where
  "ex_dim_product =
     \<lparr>schema = [\<lparr>cid = 10, cname = ''product_id''\<rparr>, \<lparr>cid = 11, cname = ''product_name''\<rparr>,
                \<lparr>cid = 12, cname = ''etl_inserted''\<rparr>],
      rows = [[VNum 500, VStr ''Atlas'', VTs ex_t1]]\<rparr>"

definition ex_dim_seller :: dataframe where
  "ex_dim_seller =
     \<lparr>schema = [\<lparr>cid = 20, cname = ''seller_id''\<rparr>, \<lparr>cid = 21, cname = ''seller_name''\<rparr>,
                \<lparr>cid = 22, cname = ''etl_inserted''\<rparr>],
      rows = [[VNum 10, VStr ''Acme'', VTs ex_t1]]\<rparr>"

definition ex_product_category :: dataframe where
  "ex_product_category =
     \<lparr>schema = [\<lparr>cid = 30, cname = ''product_id''\<rparr>, \<lparr>cid = 31, cname = ''category_id''\<rparr>,
                \<lparr>cid = 32, cname = ''etl_inserted''\<rparr>],
      rows = [[VNum 500, VNum 3, VTs ex_t1], [VNum 500, VNum 4, VTs ex_t1]]\<rparr>"

definition ex_dim_category :: dataframe where
  "ex_dim_category =
     \<lparr>schema = [\<lparr>cid = 40, cname = ''category_id''\<rparr>, \<lparr>cid = 41, cname = ''category_name''\<rparr>,
                \<lparr>cid = 42, cname = ''etl_inserted''\<rparr>],
      rows = [[VNum 3, VStr ''Books'', VTs ex_t1], [VNum 4, VStr ''Maps'', VTs ex_t1]]\<rparr>"

definition ex_wide_unit :: "bool \<Rightarrow> (unit, unit) TableETL" where
  "ex_wide_unit write_data = WideOrderItemsGoldETL None True write_data"

definition ex_upstream_datasets :: "ETLDataSet list" where
  "ex_upstream_datasets =
     map (dataset_of (ex_wide_unit False))
       [ex_fact_order_items, ex_dim_product, ex_dim_seller, ex_product_category,
        ex_dim_category]"

text \<open>What the two transforms return on the examples.\<close>

definition ex_daily_output :: dataframe where
  "ex_daily_output =
     \<lparr>schema = [\<lparr>cid = 4, cname = ''order_date''\<rparr>, \<lparr>cid = 5, cname = ''total_price_sum''\<rparr>,
                \<lparr>cid = 6, cname = ''total_price_mean''\<rparr>, \<lparr>cid = 7, cname = ''etl_inserted''\<rparr>],
      rows = [[VDate (Date 2024 1 15), VNum 50, VNum 25, VTs (Datetime 2024 2 1 0 0 0 0)],
              [VDate (Date 2024 1 16), VNum 7, VNum 7, VTs (Datetime 2024 2 1 0 0 0 0)]]\<rparr>"

definition ex_wide_output :: dataframe where
  "ex_wide_output =
     \<lparr>schema = [\<lparr>cid = 2, cname = ''product_id''\<rparr>, \<lparr>cid = 3, cname = ''seller_id''\<rparr>,
                \<lparr>cid = 0, cname = ''order_item_id''\<rparr>, \<lparr>cid = 1, cname = ''order_id''\<rparr>,
                \<lparr>cid = 4, cname = ''quantity''\<rparr>, \<lparr>cid = 5, cname = ''base_price''\<rparr>,
                \<lparr>cid = 6, cname = ''actual_price''\<rparr>, \<lparr>cid = 7, cname = ''created_ts''\<rparr>,
                \<lparr>cid = 8, cname = ''tax''\<rparr>, \<lparr>cid = 11, cname = ''product_name''\<rparr>,
                \<lparr>cid = 21, cname = ''seller_name''\<rparr>, \<lparr>cid = 42, cname = ''categories''\<rparr>,
                \<lparr>cid = 43, cname = ''etl_inserted''\<rparr>],
      rows = [[VNum 500, VNum 10, VNum 1, VNum 100, VNum 2, VNum 100, VNum 90, VTs ex_t1,
               VNum 10, VStr ''Atlas'', VStr ''Acme'',
               VList [VStruct [(''category_id'', VNum 3), (''category_name'', VStr ''Books'')],
                      VStruct [(''category_id'', VNum 4), (''category_name'', VStr ''Maps'')]],
               VTs (Datetime 2024 2 1 0 0 0 0)],
              [VNum 501, VNum 11, VNum 2, VNum 100, VNum 1, VNum 40, VNum 36, VTs ex_t1,
               VNum 4, VNull, VNull, VNull, VTs (Datetime 2024 2 1 0 0 0 0)]]\<rparr>"

text \<open>
  Three upstream classes whose \<^verbatim>\<open>run()\<close> takes different amounts of time (the world is the
  time spent); an instance is its name, marked once it has run, and \<^verbatim>\<open>read()\<close> returns an
  envelope of that name.
\<close>

definition ex_envelope :: "string \<Rightarrow> ETLDataSet" where
  "ex_envelope n =
     \<lparr>name = n, current_data = \<lparr>schema = [], rows = []\<rparr>, primary_keys = [],
      storage_path = [], data_format = [], database = [], partition_keys = []\<rparr>"

definition ex_class :: "string \<Rightarrow> nat \<Rightarrow> (string, nat) table_class" where
  "ex_class n k =
     \<lparr>class_name = n, new = (\<lambda>ru wd. n), run = (\<lambda>t w. Inr (t @ ''+'', w + k)),
      read = (\<lambda>t w. Inr (ex_envelope t))\<rparr>"

definition ex_three :: "bool \<Rightarrow> (string, nat) TableETL" where
  "ex_three run_upstream =
     WideOrderItemsGoldETL (Some [ex_class ''A'' 5, ex_class ''B'' 1, ex_class ''C'' 3])
       run_upstream True"

text \<open>
  A gold class over two silver classes, each over a bronze class; the rest of every
  \<^verbatim>\<open>run()\<close> counts the units run.
\<close>

definition ex_unit_class :: "string \<Rightarrow> nat unit_class list \<Rightarrow> nat unit_class" where
  "ex_unit_class n ups =
     UnitClass n ups (\<lambda>wd dss x. Inr (\<lparr>schema = [], rows = []\<rparr>, Suc x))
       (\<lambda>wd cached x. Inr (ex_envelope n))"

definition ex_wide_orders_class :: "nat unit_class" where
  "ex_wide_orders_class =
     ex_unit_class ''wide_orders''
       [ex_unit_class ''dim_buyer'' [ex_unit_class ''buyer'' []],
        ex_unit_class ''fact_orders'' [ex_unit_class ''orders'' []]]"

definition ex_root :: "(unit_instance, nat \<times> call list) TableETL" where
  "ex_root = DailyOrderMetricsGoldETL (Some [table_class_of ex_wide_orders_class]) True False"

text \<open>The stored daily metrics as the three batches that were written.\<close>

definition ex_batches :: "val list list list" where
  "ex_batches =
     [[[VDate (Date 2024 1 14), VNum 50, VNum 25, VTs ex_t1, VStr ''a''],
       [VDate (Date 2024 1 15), VNum 7, VNum 7, VTs ex_t1, VStr ''b'']],
      [[VDate (Date 2024 1 14), VNum 50, VNum 25, VTs ex_t2, VStr ''c'']],
      [[VDate (Date 2024 1 15), VNum 9, VNum 9, VTs ex_t3, VStr ''d'']]]"

text \<open>A dictionary with two entries: the partition column and the order date.\<close>

definition ex_two_values :: "(string \<times> string) list" where
  "ex_two_values = [(''etl_inserted'', ''2024-01-15 10:30:00''), (''order_date'', ''2024-01-15'')]"

section \<open>Auxiliary facts\<close>

subsection \<open>Error propagation\<close>

lemma ebind_Inr [simp]: "ebind (Inr x) f = f x"
  by (simp add: ebind_def)

lemma ebind_Inl [simp]: "ebind (Inl e) f = Inl e"
  by (simp add: ebind_def)

lemma ebind_Inr_iff: "ebind m f = Inr y \<longleftrightarrow> (\<exists>x. m = Inr x \<and> f x = Inr y)"
  by (cases m) simp_all

lemma econs_Inr [simp]: "econs x (Inr xs) = Inr (x # xs)"
  by (simp add: econs_def)

lemma econs_Inl [simp]: "econs x (Inl e) = Inl e"
  by (simp add: econs_def)

lemma emap_Inr_length: "emap f xs = Inr ys \<Longrightarrow> length ys = length xs"
  by (induction xs arbitrary: ys) (auto split: sum.splits)

lemma emap_Inr_nth: "emap f xs = Inr ys \<Longrightarrow> i < length xs \<Longrightarrow> f (xs ! i) = Inr (ys ! i)"
proof (induction xs arbitrary: ys i)
  case Nil
  then show ?case by simp
next
  case (Cons x xs)
  then show ?case by (cases i) (auto split: sum.splits)
qed

lemma emap_all: "(\<And>x. x \<in> set xs \<Longrightarrow> f x = Inr (g x)) \<Longrightarrow> emap f xs = Inr (map g xs)"
  by (induction xs) auto

lemma efilter_all:
  "(\<And>x. x \<in> set xs \<Longrightarrow> p x = Inr (q x)) \<Longrightarrow> efilter p xs = Inr (filter q xs)"
  by (induction xs) auto

subsection \<open>Name resolution and projection\<close>

lemma singleton_of_distinct: "distinct xs \<Longrightarrow> set xs = {i} \<Longrightarrow> xs = [i]"
proof -
  assume d: "distinct xs" and s: "set xs = {i}"
  then have "length xs = 1" using distinct_card [OF d] by simp
  then obtain x where "xs = [x]" by (cases xs) auto
  with s show ?thesis by simp
qed

lemma resolve_Inr_iff:
  "resolve s n = Inr i \<longleftrightarrow>
     i < length s \<and> cname (s ! i) = n \<and> (\<forall>j < length s. cname (s ! j) = n \<longrightarrow> j = i)"
proof -
  let ?xs = "filter (\<lambda>i. cname (s ! i) = n) [0..<length s]"
  have d: "distinct ?xs" by simp
  have s: "set ?xs = {j. j < length s \<and> cname (s ! j) = n}" by auto
  have "resolve s n = Inr i \<longleftrightarrow> ?xs = [i]"
    by (auto simp: resolve_def split: list.splits)
  also have "\<dots> \<longleftrightarrow> set ?xs = {i}"
  proof
    assume "?xs = [i]"
    then show "set ?xs = {i}" by (simp only: list.set)
  next
    assume "set ?xs = {i}"
    then show "?xs = [i]" by (rule singleton_of_distinct [OF d])
  qed
  also have "\<dots> \<longleftrightarrow>
      i < length s \<and> cname (s ! i) = n \<and> (\<forall>j < length s. cname (s ! j) = n \<longrightarrow> j = i)"
    unfolding s by auto
  finally show ?thesis .
qed

lemma select_index_name:
  "select_index s e = Inr i \<Longrightarrow> e = col (cname (s ! i)) \<and> i < length s"
  by (cases e) (auto simp: resolve_Inr_iff)

lemma select_columns:
  assumes "select df es = Inr d"
  shows "map col (columns d) = es"
proof -
  from assms obtain idxs where idxs: "emap (select_index (schema df)) es = Inr idxs"
    and d: "d = \<lparr>schema = map (\<lambda>i. schema df ! i) idxs,
                  rows = map (\<lambda>r. map (cell r) idxs) (rows df)\<rparr>"
    by (auto simp: select_def ebind_Inr_iff)
  have len: "length idxs = length es" using idxs by (rule emap_Inr_length)
  have "\<And>k. k < length es \<Longrightarrow> es ! k = col (cname (schema df ! (idxs ! k)))"
    using emap_Inr_nth [OF idxs] select_index_name by blast
  then show ?thesis
    unfolding d columns_def using len by (auto intro!: nth_equalityI)
qed

lemma read_selected_columns:
  "read_selected cs self pv spark = Inr ds \<Longrightarrow> map col (columns (current_data ds)) = cs"
  by (auto simp: read_selected_def ebind_Inr_iff dataset_of_def select_columns
           split: if_splits option.splits)

subsection \<open>Digits and the round trip of a timestamp through its string\<close>

lemma digit_char_values:
  "digit_char 0 = CHR ''0''" "digit_char (Suc 0) = CHR ''1''" "digit_char 1 = CHR ''1''"
  "digit_char 2 = CHR ''2''" "digit_char 3 = CHR ''3''" "digit_char 4 = CHR ''4''"
  "digit_char 5 = CHR ''5''" "digit_char 6 = CHR ''6''" "digit_char 7 = CHR ''7''"
  "digit_char 8 = CHR ''8''" "digit_char 9 = CHR ''9''"
  by (simp_all add: digit_char_def char_of_eq_iff take_bit_eq_mod)

lemma digit_char_roundtrip:
  "d < 10 \<Longrightarrow> is_digit (digit_char d) \<and> digit_val (digit_char d) = d"
  by (simp add: is_digit_def digit_val_def digit_char_def)

lemma digits_value_digits2:
  "n < 100 \<Longrightarrow> digits_value acc (digits2 n @ rest) = digits_value (100 * acc + n) rest"
proof -
  assume n: "n < 100"
  have a: "n div 10 mod 10 < 10" and b: "n mod 10 < 10" by simp_all
  have q: "n div 10 mod 10 = n div 10" using n by simp
  have "10 * (10 * acc + n div 10) + n mod 10 = 100 * acc + (10 * (n div 10) + n mod 10)"
    by simp
  also have "\<dots> = 100 * acc + n" by (simp only: mult_div_mod_eq)
  finally have e: "10 * (10 * acc + n div 10 mod 10) + n mod 10 = 100 * acc + n"
    by (simp only: q)
  from digit_char_roundtrip [OF a]
  have ia: "is_digit (digit_char (n div 10 mod 10))"
    and va: "digit_val (digit_char (n div 10 mod 10)) = n div 10 mod 10" by simp_all
  from digit_char_roundtrip [OF b]
  have ib: "is_digit (digit_char (n mod 10))"
    and vb: "digit_val (digit_char (n mod 10)) = n mod 10" by simp_all
  show ?thesis
    by (simp only: digits2_def append.simps digits_value.simps ia ib va vb if_True e)
qed

lemma digits_value_digits4:
  "n < 10000 \<Longrightarrow> digits_value acc (digits4 n @ rest) = digits_value (10000 * acc + n) rest"
proof -
  assume n: "n < 10000"
  then have a: "n div 100 < 100" and b: "n mod 100 < 100" by simp_all
  have "100 * (100 * acc + n div 100) + n mod 100 =
        10000 * acc + (100 * (n div 100) + n mod 100)"
    by simp
  then have e: "100 * (100 * acc + n div 100) + n mod 100 = 10000 * acc + n"
    by (simp only: mult_div_mod_eq)
  show ?thesis
    unfolding digits4_def append_assoc digits_value_digits2 [OF a]
      digits_value_digits2 [OF b] e ..
qed

lemma digits_value_digits6:
  "n < 1000000 \<Longrightarrow>
   digits_value acc (digits6 n @ rest) = digits_value (1000000 * acc + n) rest"
proof -
  assume n: "n < 1000000"
  then have a: "n div 10000 < 100" and b: "n mod 10000 < 10000" by simp_all
  have "10000 * (100 * acc + n div 10000) + n mod 10000 =
        1000000 * acc + (10000 * (n div 10000) + n mod 10000)"
    by simp
  then have e: "10000 * (100 * acc + n div 10000) + n mod 10000 = 1000000 * acc + n"
    by (simp only: mult_div_mod_eq)
  show ?thesis
    unfolding digits6_def append_assoc digits_value_digits2 [OF a]
      digits_value_digits4 [OF b] e ..
qed

lemma nat_of_digits2: "n < 100 \<Longrightarrow> nat_of_digits (digits2 n) = Some n"
  using digits_value_digits2 [of n 0 "[]"]
  by (simp add: nat_of_digits_def) (simp add: digits2_def)

lemma nat_of_digits4: "n < 10000 \<Longrightarrow> nat_of_digits (digits4 n) = Some n"
  using digits_value_digits4 [of n 0 "[]"]
  by (simp add: nat_of_digits_def) (simp add: digits4_def digits2_def)

lemma nat_of_digits6: "n < 1000000 \<Longrightarrow> nat_of_digits (digits6 n) = Some n"
  using digits_value_digits6 [of n 0 "[]"]
  by (simp add: nat_of_digits_def) (simp add: digits6_def digits4_def digits2_def)

lemma cast_fraction_roundtrip:
  "us < 1000000 \<Longrightarrow> cast_fraction (if us = 0 then [] else ''.'' @ digits6 us) = Some us"
  by (simp add: cast_fraction_def nat_of_digits6) (simp add: digits6_def digits4_def digits2_def)

lemma valid_datetime_bounds:
  assumes v: "valid_datetime t"
  shows "year t < 10000" "month t < 100" "day t < 100" "hour t < 100"
    "minute t < 100" "second t < 100" "microsecond t < 1000000"
proof -
  have days: "days_in_month (year t) (month t) \<le> 31"
    by (simp add: days_in_month_def)
  from v have "day t \<le> days_in_month (year t) (month t)"
    by (simp add: valid_datetime_def)
  with days show "day t < 100" by linarith
qed (use v in \<open>simp_all add: valid_datetime_def\<close>)

lemma str_datetime_shape:
  assumes "digits4 (year t) = [y1, y2, y3, y4]" and "digits2 (month t) = [m1, m2]"
    and "digits2 (day t) = [d1, d2]" and "digits2 (hour t) = [h1, h2]"
    and "digits2 (minute t) = [n1, n2]" and "digits2 (second t) = [s1, s2]"
  shows "str_datetime t =
      y1 # y2 # y3 # y4 # CHR ''-'' # m1 # m2 # CHR ''-'' # d1 # d2 # CHR '' '' #
      h1 # h2 # CHR '':'' # n1 # n2 # CHR '':'' # s1 # s2 #
      (if microsecond t = 0 then [] else ''.'' @ digits6 (microsecond t))"
  unfolding str_datetime_def assms by simp

lemma cast_timestamp_shape:
  assumes ny: "nat_of_digits [y1, y2, y3, y4] = Some y"
    and nm: "nat_of_digits [m1, m2] = Some mo"
    and nd: "nat_of_digits [d1, d2] = Some d"
    and nh: "nat_of_digits [h1, h2] = Some h"
    and nn: "nat_of_digits [n1, n2] = Some mi"
    and ns: "nat_of_digits [s1, s2] = Some sec"
    and nf: "cast_fraction fraction = Some us"
    and v: "valid_datetime (Datetime y mo d h mi sec us)"
  shows "cast_timestamp
           (y1 # y2 # y3 # y4 # CHR ''-'' # m1 # m2 # CHR ''-'' # d1 # d2 # CHR '' '' #
            h1 # h2 # CHR '':'' # n1 # n2 # CHR '':'' # s1 # s2 # fraction) =
         Some (Datetime y mo d h mi sec us)"
  unfolding cast_timestamp_def list.case ny nm nd nh nn ns nf
  by (simp add: v)

lemma digits2_shape: "\<exists>a b. digits2 n = [a, b]"
  by (simp add: digits2_def)

lemma digits4_shape: "\<exists>a b c d. digits4 n = [a, b, c, d]"
  by (simp add: digits4_def digits2_def)

lemma cast_timestamp_str_datetime:
  assumes v: "valid_datetime t"
  shows "cast_timestamp (str_datetime t) = Some t"
proof -
  obtain y1 y2 y3 y4 where Y: "digits4 (year t) = [y1, y2, y3, y4]"
    using digits4_shape by blast
  obtain m1 m2 where M: "digits2 (month t) = [m1, m2]" using digits2_shape by blast
  obtain d1 d2 where D: "digits2 (day t) = [d1, d2]" using digits2_shape by blast
  obtain h1 h2 where H: "digits2 (hour t) = [h1, h2]" using digits2_shape by blast
  obtain n1 n2 where N: "digits2 (minute t) = [n1, n2]" using digits2_shape by blast
  obtain s1 s2 where S: "digits2 (second t) = [s1, s2]" using digits2_shape by blast
  note b = valid_datetime_bounds [OF v]
  have ny: "nat_of_digits [y1, y2, y3, y4] = Some (year t)"
    using nat_of_digits4 [OF b(1)] by (simp only: Y)
  have nm: "nat_of_digits [m1, m2] = Some (month t)"
    using nat_of_digits2 [OF b(2)] by (simp only: M)
  have nd: "nat_of_digits [d1, d2] = Some (day t)"
    using nat_of_digits2 [OF b(3)] by (simp only: D)
  have nh: "nat_of_digits [h1, h2] = Some (hour t)"
    using nat_of_digits2 [OF b(4)] by (simp only: H)
  have nn: "nat_of_digits [n1, n2] = Some (minute t)"
    using nat_of_digits2 [OF b(5)] by (simp only: N)
  have ns: "nat_of_digits [s1, s2] = Some (second t)"
    using nat_of_digits2 [OF b(6)] by (simp only: S)
  have t: "Datetime (year t) (month t) (day t) (hour t) (minute t) (second t)
             (microsecond t) = t"
    by simp
  have v': "valid_datetime (Datetime (year t) (month t) (day t) (hour t) (minute t)
              (second t) (microsecond t))"
    using v by (simp only: t)
  show ?thesis
    unfolding str_datetime_shape [OF Y M D H N S]
    using cast_timestamp_shape [OF ny nm nd nh nn ns cast_fraction_roundtrip [OF b(7)] v']
    by (simp only: t)
qed

subsection \<open>Schemas through the transformations\<close>

lemma keep_where_map: "keep_where (map P xs) xs = filter P xs"
  by (induction xs) (auto simp: keep_where_def)

lemma schema_drop_column: "schema (drop_column df c) = filter (\<lambda>c'. c' \<noteq> c) (schema df)"
  by (simp add: drop_column_def Let_def keep_where_map)

lemma set_remove_nth: "set (remove_nth i xs) \<subseteq> set xs"
  unfolding remove_nth_def using set_take_subset [of i xs] set_drop_subset [of "Suc i" xs] by auto

lemma resolve_in_set: "resolve s n = Inr i \<Longrightarrow> s ! i \<in> set s \<and> cname (s ! i) = n"
  by (simp add: resolve_Inr_iff)

lemma join_schema_subset:
  assumes "join l r k h = Inr d"
  shows "set (schema d) \<subseteq> set (schema l) \<union> set (schema r)"
proof -
  from assms obtain i j where i: "resolve (schema l) k = Inr i" and j: "resolve (schema r) k = Inr j"
    and d: "schema d = schema l ! i # remove_nth i (schema l) @ remove_nth j (schema r)"
    by (auto simp: join_def ebind_Inr_iff Let_def)
  show ?thesis
    unfolding d using resolve_in_set [OF i] set_remove_nth [of i "schema l"] set_remove_nth [of j "schema r"]
    by auto
qed

lemma getitem_unique:
  assumes "getitem df n = Inr c"
  shows "c \<in> set (schema df)" "cname c = n" "\<And>c'. c' \<in> set (schema df) \<Longrightarrow> cname c' = n \<Longrightarrow> c' = c"
proof -
  from assms obtain i where i: "resolve (schema df) n = Inr i" and c: "c = schema df ! i"
    by (auto simp: getitem_def ebind_Inr_iff)
  from i show "c \<in> set (schema df)" "cname c = n" unfolding c by (simp_all add: resolve_Inr_iff)
  fix c' assume "c' \<in> set (schema df)" "cname c' = n"
  then obtain j where "j < length (schema df)" "schema df ! j = c'" by (auto simp: in_set_conv_nth)
  with i \<open>cname c' = n\<close> show "c' = c" unfolding c by (auto simp: resolve_Inr_iff)
qed

lemma groupBy_agg_columns:
  assumes "groupBy_agg df k aggs = Inr d"
  shows "columns d = k # map snd aggs"
proof -
  from assms obtain i where i: "resolve (schema df) k = Inr i"
    and d: "schema d = schema df ! i #
                      map (\<lambda>(j, (a, n)). \<lparr>cid = fresh_cid (schema df) + j, cname = n\<rparr>)
                          (zip [0..<length aggs] aggs)"
    by (auto simp: groupBy_agg_def ebind_Inr_iff)
  have "map cname (map (\<lambda>(j, (a, n)). \<lparr>cid = fresh_cid (schema df) + j, cname = n\<rparr>)
                          (zip [0..<length aggs] aggs)) = map snd aggs"
    by (auto intro!: nth_equalityI simp: split_def)
  then show ?thesis
    unfolding columns_def d using resolve_in_set [OF i] by simp
qed

lemma groupBy_agg_row_length:
  assumes "groupBy_agg df k aggs = Inr d" and "r \<in> set (rows d)"
  shows "length r = Suc (length aggs)"
proof -
  from assms(1) obtain i rs where
    rs: "emap (\<lambda>g. ebind (emap (\<lambda>(a, n). eval_aggregate (schema df) a
                                      (filter (\<lambda>r. cell r i = g) (rows df))) aggs)
                    (\<lambda>vs. Inr (g # vs)))
            (first_occurrences (map (\<lambda>r. cell r i) (rows df))) = Inr rs"
    and d: "rows d = rs"
    by (auto simp: groupBy_agg_def ebind_Inr_iff)
  from assms(2) d obtain m where m: "m < length rs" "rs ! m = r" by (auto simp: in_set_conv_nth)
  from emap_Inr_nth [OF rs] m emap_Inr_length [OF rs]
  obtain g vs where "emap (\<lambda>(a, n). eval_aggregate (schema df) a
                                      (filter (\<lambda>r. cell r i = g) (rows df))) aggs = Inr vs" "r = g # vs"
    by (fastforce simp: ebind_Inr_iff)
  then show ?thesis using emap_Inr_length by fastforce
qed

lemma length_pad [simp]: "length (pad n r) = n"
  by (simp add: pad_def)

lemma pad_id: "length r = n \<Longrightarrow> pad n r = r"
  by (simp add: pad_def)

lemma map_zip_const: "map (\<lambda>(r, w). f r w) (zip xs (map (\<lambda>_. v) xs)) = map (\<lambda>r. f r v) xs"
  by (induction xs) auto

lemma withColumn_lit_append:
  assumes "n \<notin> set (columns df)"
  shows "withColumn df n (lit v) =
     Inr \<lparr>schema = schema df @ [\<lparr>cid = fresh_cid (schema df), cname = n\<rparr>],
          rows = map (\<lambda>r. pad (length (schema df)) r @ [v]) (rows df)\<rparr>"
proof -
  have "emap (eval_expr (schema df) (lit v)) (rows df) = Inr (map (\<lambda>_. v) (rows df))"
    by (rule emap_all) simp
  moreover have "map (\<lambda>(r, v). pad (length (schema df)) r @ [v]) (zip (rows df) (map (\<lambda>_. v) (rows df)))
      = map (\<lambda>r. pad (length (schema df)) r @ [v]) (rows df)"
    by (rule map_zip_const)
  ultimately show ?thesis
    using assms by (simp add: withColumn_def Let_def)
qed

lemma resolve_appended:
  assumes "cname c \<notin> set (map cname s)"
  shows "resolve (s @ [c]) (cname c) = Inr (length s)"
proof -
  have ne: "\<And>j. j < length s \<Longrightarrow> cname (s ! j) \<noteq> cname c"
  proof
    fix j assume "j < length s" and e: "cname (s ! j) = cname c"
    then have "s ! j \<in> set s" by simp
    then have "cname (s ! j) \<in> cname ` set s" by (rule imageI)
    with assms e show False by simp
  qed
  have "\<And>j. j < length (s @ [c]) \<Longrightarrow> cname ((s @ [c]) ! j) = cname c \<Longrightarrow> j = length s"
  proof -
    fix j assume j: "j < length (s @ [c])" and e: "cname ((s @ [c]) ! j) = cname c"
    show "j = length s"
    proof (rule ccontr)
      assume "j \<noteq> length s"
      with j have l: "j < length s" by simp
      then have "(s @ [c]) ! j = s ! j" by (simp add: nth_append)
      with e ne [OF l] show False by simp
    qed
  qed
  then show ?thesis
    unfolding resolve_Inr_iff by simp
qed

subsection \<open>The shape of what the transforms return\<close>

lemma daily_transform_steps:
  assumes "DailyOrderMetrics_transform_upstream self dss clk = Inr (ds, self1, clk1)"
  obtains d2 daily where
    "groupBy_agg d2 ''order_date''
              [(spark_sum ''total_price'', ''total_price_sum''),
               (spark_mean ''total_price'', ''total_price_mean'')] = Inr daily"
    "withColumn daily ''etl_inserted'' (lit (VTs (readings clk (taken clk)))) = Inr (current_data ds)"
    "ds = dataset_of self (current_data ds)"
    "self1 = self\<lparr>self_current_data := Some (current_data ds)\<rparr>"
    "clk1 = clk\<lparr>taken := Suc (taken clk)\<rparr>"
  using assms
  unfolding DailyOrderMetrics_transform_upstream_def ebind_Inr_iff datetime_now_def prod.case Let_def
  by (auto simp: dataset_of_def)

lemma daily_transform_shape:
  assumes "DailyOrderMetrics_transform_upstream self dss clk = Inr (ds, self1, clk1)"
  obtains daily where
    "columns daily = [''order_date'', ''total_price_sum'', ''total_price_mean'']"
    "\<And>r. r \<in> set (rows daily) \<Longrightarrow> length r = 3"
    "current_data ds =
       \<lparr>schema = schema daily @ [\<lparr>cid = fresh_cid (schema daily), cname = ''etl_inserted''\<rparr>],
        rows = map (\<lambda>r. r @ [VTs (readings clk (taken clk))]) (rows daily)\<rparr>"
    "ds = dataset_of self (current_data ds)"
    "self1 = self\<lparr>self_current_data := Some (current_data ds)\<rparr>"
    "clk1 = clk\<lparr>taken := Suc (taken clk)\<rparr>"
proof -
  from daily_transform_steps [OF assms] obtain d2 daily where
    g: "groupBy_agg d2 ''order_date''
              [(spark_sum ''total_price'', ''total_price_sum''),
               (spark_mean ''total_price'', ''total_price_mean'')] = Inr daily"
    and w: "withColumn daily ''etl_inserted'' (lit (VTs (readings clk (taken clk)))) = Inr (current_data ds)"
    and rest: "ds = dataset_of self (current_data ds)"
    "self1 = self\<lparr>self_current_data := Some (current_data ds)\<rparr>"
    "clk1 = clk\<lparr>taken := Suc (taken clk)\<rparr>"
    by blast
  have cols: "columns daily = [''order_date'', ''total_price_sum'', ''total_price_mean'']"
    using groupBy_agg_columns [OF g] by simp
  have len: "\<And>r. r \<in> set (rows daily) \<Longrightarrow> length r = 3"
    using groupBy_agg_row_length [OF g] by simp
  have "length (columns daily) = 3" unfolding cols by simp
  then have n: "length (schema daily) = 3" by (simp add: columns_def)
  have notin: "''etl_inserted'' \<notin> set (columns daily)" unfolding cols by simp
  have "map (\<lambda>r. pad (length (schema daily)) r @ [VTs (readings clk (taken clk))]) (rows daily)
      = map (\<lambda>r. r @ [VTs (readings clk (taken clk))]) (rows daily)"
    using len n by (simp add: pad_id)
  with w have "current_data ds =
       \<lparr>schema = schema daily @ [\<lparr>cid = fresh_cid (schema daily), cname = ''etl_inserted''\<rparr>],
        rows = map (\<lambda>r. r @ [VTs (readings clk (taken clk))]) (rows daily)\<rparr>"
    unfolding withColumn_lit_append [OF notin] by simp
  with cols len rest show ?thesis using that by blast
qed

lemma item_Inr_iff: "item xs i = Inr x \<longleftrightarrow> i < length xs \<and> x = xs ! i"
  by (auto simp: item_def)

lemma wide_transform_steps:
  assumes "WideOrderItems_transform_upstream self dss clk = Inr (ds, self1, clk1)"
  obtains j1 w2 j2 c_cat c_brg grain w3 c_fact c_prod c_sell where
    "4 < length dss"
    "join (current_data (dss ! 0)) (current_data (dss ! 1)) ''product_id'' how_left = Inr j1"
    "join j1 (current_data (dss ! 2)) ''seller_id'' how_left = Inr w2"
    "join (current_data (dss ! 3)) (current_data (dss ! 4)) ''category_id'' how_inner = Inr j2"
    "getitem (current_data (dss ! 4)) ''etl_inserted'' = Inr c_cat"
    "getitem (current_data (dss ! 3)) ''etl_inserted'' = Inr c_brg"
    "groupBy_agg (drop_column (drop_column j2 c_cat) c_brg) ''product_id''
              [(collect_list (struct [''category_id'', ''category_name'']), ''categories'')] = Inr grain"
    "join w2 grain ''product_id'' how_left = Inr w3"
    "getitem (current_data (dss ! 0)) ''etl_inserted'' = Inr c_fact"
    "getitem (current_data (dss ! 1)) ''etl_inserted'' = Inr c_prod"
    "getitem (current_data (dss ! 2)) ''etl_inserted'' = Inr c_sell"
    "withColumn (drop_column (drop_column (drop_column w3 c_fact) c_prod) c_sell)
       ''etl_inserted'' (lit (VTs (readings clk (taken clk)))) = Inr (current_data ds)"
    "ds = dataset_of self (current_data ds)"
    "self1 = self\<lparr>self_current_data := Some (current_data ds)\<rparr>"
    "clk1 = clk\<lparr>taken := Suc (taken clk)\<rparr>"
  using assms
  unfolding WideOrderItems_transform_upstream_def ebind_Inr_iff datetime_now_def prod.case Let_def
    item_Inr_iff
  by (auto simp: dataset_of_def)


lemma in_columns_iff: "n \<in> set (columns df) \<longleftrightarrow> (\<exists>c \<in> set (schema df). cname c = n)"
  by (auto simp: columns_def)

lemma set_filter_neq: "set (filter (\<lambda>x. x \<noteq> a) xs) = set xs - {a}"
  by auto

lemma wide_transform_shape:
  assumes "WideOrderItems_transform_upstream self dss clk = Inr (ds, self1, clk1)"
  obtains base where
    "''etl_inserted'' \<notin> set (columns base)"
    "current_data ds =
       \<lparr>schema = schema base @ [\<lparr>cid = fresh_cid (schema base), cname = ''etl_inserted''\<rparr>],
        rows = map (\<lambda>r. pad (length (schema base)) r @ [VTs (readings clk (taken clk))])
                 (rows base)\<rparr>"
    "ds = dataset_of self (current_data ds)"
    "self1 = self\<lparr>self_current_data := Some (current_data ds)\<rparr>"
    "clk1 = clk\<lparr>taken := Suc (taken clk)\<rparr>"
proof -
  show thesis
  proof (rule wide_transform_steps [OF assms])
  fix j1 w2 j2 c_cat c_brg grain w3 c_fact c_prod c_sell
  assume "4 < length dss"
    and j1: "join (current_data (dss ! 0)) (current_data (dss ! 1)) ''product_id'' how_left = Inr j1"
    and w2: "join j1 (current_data (dss ! 2)) ''seller_id'' how_left = Inr w2"
    and "join (current_data (dss ! 3)) (current_data (dss ! 4)) ''category_id'' how_inner = Inr j2"
    and "getitem (current_data (dss ! 4)) ''etl_inserted'' = Inr c_cat"
    and "getitem (current_data (dss ! 3)) ''etl_inserted'' = Inr c_brg"
    and grain: "groupBy_agg (drop_column (drop_column j2 c_cat) c_brg) ''product_id''
              [(collect_list (struct [''category_id'', ''category_name'']), ''categories'')]
              = Inr grain"
    and w3: "join w2 grain ''product_id'' how_left = Inr w3"
    and cf: "getitem (current_data (dss ! 0)) ''etl_inserted'' = Inr c_fact"
    and cp: "getitem (current_data (dss ! 1)) ''etl_inserted'' = Inr c_prod"
    and cs: "getitem (current_data (dss ! 2)) ''etl_inserted'' = Inr c_sell"
    and w: "withColumn (drop_column (drop_column (drop_column w3 c_fact) c_prod) c_sell)
       ''etl_inserted'' (lit (VTs (readings clk (taken clk)))) = Inr (current_data ds)"
    and rest: "ds = dataset_of self (current_data ds)"
      "self1 = self\<lparr>self_current_data := Some (current_data ds)\<rparr>"
      "clk1 = clk\<lparr>taken := Suc (taken clk)\<rparr>"
  define base where "base = drop_column (drop_column (drop_column w3 c_fact) c_prod) c_sell"
  have sb: "set (schema base) = set (schema w3) - {c_fact, c_prod, c_sell}"
    unfolding base_def schema_drop_column set_filter_neq by blast
  have sub: "set (schema w3) \<subseteq> set (schema (current_data (dss ! 0))) \<union>
      set (schema (current_data (dss ! 1))) \<union> set (schema (current_data (dss ! 2))) \<union>
      set (schema grain)"
    using join_schema_subset [OF j1] join_schema_subset [OF w2] join_schema_subset [OF w3]
    by blast
  have gcols: "columns grain = [''product_id'', ''categories'']"
    using groupBy_agg_columns [OF grain] by simp
  have notin: "''etl_inserted'' \<notin> set (columns base)"
  proof
    assume "''etl_inserted'' \<in> set (columns base)"
    then obtain c where c: "c \<in> set (schema base)" and n: "cname c = ''etl_inserted''"
      unfolding in_columns_iff by blast
    from c sb have in3: "c \<in> set (schema w3)" and ne: "c \<noteq> c_fact" "c \<noteq> c_prod" "c \<noteq> c_sell"
      by blast+
    from in3 sub consider
      "c \<in> set (schema (current_data (dss ! 0)))" | "c \<in> set (schema (current_data (dss ! 1)))" |
      "c \<in> set (schema (current_data (dss ! 2)))" | "c \<in> set (schema grain)"
      by blast
    then show False
    proof cases
      case 1
      from getitem_unique(3) [OF cf 1 n] ne show False by simp
    next
      case 2
      from getitem_unique(3) [OF cp 2 n] ne show False by simp
    next
      case 3
      from getitem_unique(3) [OF cs 3 n] ne show False by simp
    next
      case 4
      with n have "''etl_inserted'' \<in> set (columns grain)"
        unfolding in_columns_iff by blast
      then show False unfolding gcols by simp
    qed
  qed
  from w have "current_data ds =
       \<lparr>schema = schema base @ [\<lparr>cid = fresh_cid (schema base), cname = ''etl_inserted''\<rparr>],
        rows = map (\<lambda>r. pad (length (schema base)) r @ [VTs (readings clk (taken clk))])
                 (rows base)\<rparr>"
    unfolding base_def [symmetric] withColumn_lit_append [OF notin] by simp
  with notin rest show thesis using that by blast
  qed
qed

lemma count_list_filter: "count_list xs y = length (filter (\<lambda>x. x = y) xs)"
  by (induction xs) auto

lemma resolve_count:
  assumes "resolve s n = Inr i"
  shows "count_list (map cname s) n = 1"
proof -
  have "{j. j < length (map cname s) \<and> map cname s ! j = n} = {j. j < length s \<and> cname (s ! j) = n}"
    by auto
  also have "\<dots> = {i}"
    using assms unfolding resolve_Inr_iff by blast
  finally show ?thesis
    unfolding count_list_filter length_filter_conv_card by simp
qed

lemma getitem_count: "getitem df n = Inr c \<Longrightarrow> count_list (columns df) n = 1"
  unfolding getitem_def ebind_Inr_iff columns_def using resolve_count by blast

lemma cell_pad_append: "cell (pad n r @ [v]) n = v"
  by (simp add: cell_def nth_append)

lemma column_values_appended:
  assumes "n \<notin> set (columns base)"
  shows "column_values \<lparr>schema = schema base @ [\<lparr>cid = k, cname = n\<rparr>],
                         rows = map (\<lambda>r. pad (length (schema base)) r @ [v]) rs\<rparr> n =
         Inr (replicate (length rs) v)"
proof -
  have "cname \<lparr>cid = k, cname = n\<rparr> \<notin> set (map cname (schema base))"
    using assms by (simp add: columns_def)
  from resolve_appended [OF this]
  have r: "resolve (schema base @ [\<lparr>cid = k, cname = n\<rparr>]) n = Inr (length (schema base))"
    by simp
  have "map (\<lambda>r. cell r (length (schema base))) (map (\<lambda>r. pad (length (schema base)) r @ [v]) rs)
        = replicate (length rs) v"
    by (induction rs) (simp_all add: cell_pad_append)
  then show ?thesis
    by (simp add: column_values_def r)
qed





lemma dataset_of_cached [simp]:
  "dataset_of (self\<lparr>self_current_data := c\<rparr>) d = dataset_of self d"
  by (simp add: dataset_of_def)


lemma daily_transform_output:
  assumes "DailyOrderMetrics_transform_upstream self dss clk = Inr (ds, self1, clk1)"
  shows "columns (current_data ds) =
           [''order_date'', ''total_price_sum'', ''total_price_mean'', ''etl_inserted'']"
    and "\<And>r. r \<in> set (rows (current_data ds)) \<Longrightarrow> length r = 4"
    and "ds = dataset_of self (current_data ds)"
    and "self1 = self\<lparr>self_current_data := Some (current_data ds)\<rparr>"
proof -
  from daily_transform_shape [OF assms] obtain daily where
    cols: "columns daily = [''order_date'', ''total_price_sum'', ''total_price_mean'']"
    and len: "\<And>r. r \<in> set (rows daily) \<Longrightarrow> length r = 3"
    and cd: "current_data ds =
       \<lparr>schema = schema daily @ [\<lparr>cid = fresh_cid (schema daily), cname = ''etl_inserted''\<rparr>],
        rows = map (\<lambda>r. r @ [VTs (readings clk (taken clk))]) (rows daily)\<rparr>"
    and rest: "ds = dataset_of self (current_data ds)"
      "self1 = self\<lparr>self_current_data := Some (current_data ds)\<rparr>"
    by blast
  have "columns (current_data ds) = columns daily @ [''etl_inserted'']"
    unfolding cd by (simp add: columns_def)
  then show "columns (current_data ds) =
           [''order_date'', ''total_price_sum'', ''total_price_mean'', ''etl_inserted'']"
    unfolding cols by simp
  show "\<And>r. r \<in> set (rows (current_data ds)) \<Longrightarrow> length r = 4"
    unfolding cd using len by auto
  show "ds = dataset_of self (current_data ds)"
    "self1 = self\<lparr>self_current_data := Some (current_data ds)\<rparr>" by (rule rest)+
qed

lemma read_selected_envelope:
  "read_selected cs self pv spark = Inr ds \<Longrightarrow> primary_keys ds = self_primary_keys self"
  by (auto simp: read_selected_def ebind_Inr_iff dataset_of_def split: if_splits option.splits)

subsection \<open>The extraction loop\<close>

lemma extract_loop_Cons:
  "extract_loop self (c # cs) acc (w, calls) = Inr res \<longleftrightarrow>
     (\<exists>ds w'. spec_extract_one self c w = Inr (ds, w') \<and>
        extract_loop self cs (acc @ [ds]) (w', calls @ spec_calls_one self c) = Inr res)"
  by (cases "self_run_upstream self")
     (auto simp: spec_extract_one_def spec_calls_one_def ebind_Inr_iff Let_def)

lemma extract_loop_result:
  assumes "extract_loop self cs acc (w, calls) = Inr (dss, w1, calls1)"
  shows "\<exists>ws. length ws = Suc (length cs) \<and> ws ! 0 = w \<and> ws ! length cs = w1 \<and>
           length dss = length acc + length cs \<and> take (length acc) dss = acc \<and>
           (\<forall>i<length cs. spec_extract_one self (cs ! i) (ws ! i) =
                             Inr (dss ! (length acc + i), ws ! Suc i)) \<and>
           calls1 = calls @ concat (map (spec_calls_one self) cs)"
  using assms
proof (induction cs arbitrary: acc w calls)
  case Nil
  then show ?case by (intro exI [of _ "[w]"]) simp
next
  case (Cons c cs)
  from Cons.prems obtain ds w' where
    one: "spec_extract_one self c w = Inr (ds, w')"
    and rest: "extract_loop self cs (acc @ [ds]) (w', calls @ spec_calls_one self c) =
                 Inr (dss, w1, calls1)"
    unfolding extract_loop_Cons by blast
  from Cons.IH [OF rest] obtain ws where
    l: "length ws = Suc (length cs)" and h: "ws ! 0 = w'" and e: "ws ! length cs = w1"
    and ld: "length dss = length (acc @ [ds]) + length cs"
    and tk: "take (length (acc @ [ds])) dss = acc @ [ds]"
    and st: "\<forall>i<length cs. spec_extract_one self (cs ! i) (ws ! i) =
                             Inr (dss ! (length (acc @ [ds]) + i), ws ! Suc i)"
    and cl: "calls1 = (calls @ spec_calls_one self c) @ concat (map (spec_calls_one self) cs)"
    by blast
  have ds: "dss ! length acc = ds"
  proof -
    have "dss ! length acc = take (length (acc @ [ds])) dss ! length acc" by simp
    also have "\<dots> = ds" unfolding tk by simp
    finally show ?thesis .
  qed
  have tk': "take (length acc) dss = acc"
  proof -
    have "take (length acc) dss = take (length acc) (take (length (acc @ [ds])) dss)"
      by simp
    also have "\<dots> = acc" unfolding tk by simp
    finally show ?thesis .
  qed
  have steps: "\<forall>i<length (c # cs). spec_extract_one self ((c # cs) ! i) ((w # ws) ! i) =
                             Inr (dss ! (length acc + i), (w # ws) ! Suc i)"
  proof (intro allI impI)
    fix i assume i: "i < length (c # cs)"
    show "spec_extract_one self ((c # cs) ! i) ((w # ws) ! i) =
                             Inr (dss ! (length acc + i), (w # ws) ! Suc i)"
    proof (cases i)
      case 0
      then show ?thesis using one ds h by simp
    next
      case (Suc k)
      with i have "k < length cs" by simp
      with st have "spec_extract_one self (cs ! k) (ws ! k) =
                             Inr (dss ! (length (acc @ [ds]) + k), ws ! Suc k)" by blast
      then show ?thesis using Suc by simp
    qed
  qed
  show ?case
    by (intro exI [of _ "w # ws"]) (use l e ld tk' steps cl in simp)
qed

lemma flags_in_append [simp]: "flags_in ru wd (xs @ ys) \<longleftrightarrow> flags_in ru wd xs \<and> flags_in ru wd ys"
  by (simp add: flags_in_def)

lemma flags_in_Nil [simp]: "flags_in ru wd []"
  by (simp add: flags_in_def)





subsection \<open>The daily aggregation\<close>













subsection \<open>The latest partition\<close>

lemma dt_le_refl [simp]: "dt_le a a"
  by (simp add: dt_le_def)









lemma lex_string_literal:
  "clean s \<Longrightarrow>
   lex (InString acc) (s @ CHR 0x27 # rest) = econs (TString (acc @ s)) (lex Start rest)"
  by (induction s arbitrary: acc) (simp_all add: clean_def)

lemma lex_etl_clause:
  assumes "clean s"
  shows "lex Start (''etl_inserted = '' @ [CHR 0x27] @ s @ [CHR 0x27]) =
         Inr [TIdent ''etl_inserted'', TEq, TString s]"
proof -
  have "lex Start (''etl_inserted = '' @ [CHR 0x27] @ s @ [CHR 0x27]) =
        econs (TIdent ''etl_inserted'') (econs TEq (lex (InString []) (s @ CHR 0x27 # [])))"
    by (simp add: is_letter_def is_digit_def)
  also have "\<dots> = Inr [TIdent ''etl_inserted'', TEq, TString s]"
    unfolding lex_string_literal [OF assms] by simp
  finally show ?thesis .
qed

lemma parse_etl_clause:
  "parse_filter [TIdent ''etl_inserted'', TEq, TString s] = Inr [(''etl_inserted'', s)]"
  by (simp add: keyword_def operator_keywords_def upper_char_def)

lemma digit_char_clean:
  assumes "d < 10"
  shows "digit_char d \<noteq> CHR 0x27 \<and> digit_char d \<noteq> CHR 0x5C"
proof -
  from digit_char_roundtrip [OF assms] have "is_digit (digit_char d)" by simp
  moreover have "\<not> is_digit (CHR 0x27)" "\<not> is_digit (CHR 0x5C)"
    by (simp_all add: is_digit_def)
  ultimately show ?thesis by metis
qed

lemma clean_append [simp]: "clean (xs @ ys) \<longleftrightarrow> clean xs \<and> clean ys"
  by (simp add: clean_def)

lemma clean_Cons [simp]:
  "clean (c # s) \<longleftrightarrow> c \<noteq> CHR 0x27 \<and> c \<noteq> CHR 0x5C \<and> clean s"
  by (simp add: clean_def)

lemma clean_Nil [simp]: "clean []"
  by (simp add: clean_def)

lemma clean_digits2: "clean (digits2 n)"
proof -
  have "n div 10 mod 10 < 10" "n mod 10 < 10" by simp_all
  from this [THEN digit_char_clean] show ?thesis
    by (simp add: digits2_def)
qed

lemma clean_digits4: "clean (digits4 n)"
  by (simp add: digits4_def clean_digits2)

lemma clean_digits6: "clean (digits6 n)"
  by (simp add: digits6_def clean_digits2 clean_digits4)

lemma clean_str_datetime: "clean (str_datetime t)"
proof -
  show ?thesis
    by (simp add: str_datetime_def clean_digits2 clean_digits4 clean_digits6)
qed

lemma filter_string_etl:
  assumes i: "resolve (schema df) ''etl_inserted'' = Inr i"
    and ty: "list_all (\<lambda>r. stamp_or_null (cell r i)) (rows df)"
    and s: "clean s"
  shows "filter_string df (''etl_inserted = '' @ [CHR 0x27] @ s @ [CHR 0x27]) =
     Inr \<lparr>schema = schema df,
          rows = filter (\<lambda>r. case cell r i of VTs t \<Rightarrow> cast_timestamp s = Some t | _ \<Rightarrow> False)
                   (rows df)\<rparr>"
proof -
  let ?keep = "\<lambda>r. case cell r i of VTs t \<Rightarrow> cast_timestamp s = Some t | _ \<Rightarrow> False"
  have "efilter (\<lambda>r. ebind (emap (\<lambda>(i, l). sql_eq_literal (cell r i) l) [(i, s)])
                        (\<lambda>bs. Inr (list_all (\<lambda>b. b = Some True) bs))) (rows df) =
        Inr (filter ?keep (rows df))"
  proof (rule efilter_all)
    fix r assume "r \<in> set (rows df)"
    with ty have t: "stamp_or_null (cell r i)" by (simp add: list_all_iff)
    show "ebind (emap (\<lambda>(i, l). sql_eq_literal (cell r i) l) [(i, s)])
                        (\<lambda>bs. Inr (list_all (\<lambda>b. b = Some True) bs))
          = Inr (?keep r)"
    proof (cases "cell r i")
      case (VTs t')
      then show ?thesis by (cases "cast_timestamp s") auto
    qed (use t in \<open>simp_all add: stamp_or_null_def\<close>)
  qed
  then show ?thesis
    unfolding filter_string_def lex_etl_clause [OF s] ebind_Inr parse_etl_clause
    by (simp add: i)
qed








lemma read_explicit_partition:
  assumes wd: "self_write_data self"
    and st: "spark (self_data_format self, self_storage_path self) = Some df"
    and i: "resolve (schema df) ''etl_inserted'' = Inr i"
    and ty: "list_all (\<lambda>r. stamp_or_null (cell r i)) (rows df)"
    and v: "valid_datetime t"
  shows "read_selected cols self (Some [(''etl_inserted'', str_datetime t)]) spark =
     ebind (select \<lparr>schema = schema df, rows = filter (\<lambda>r. cell r i = VTs t) (rows df)\<rparr> cols)
       (\<lambda>d. Inr (dataset_of self d))"
proof -
  have "filter (\<lambda>r. case cell r i of VTs t' \<Rightarrow> cast_timestamp (str_datetime t) = Some t'
                                   | _ \<Rightarrow> False) (rows df) =
        filter (\<lambda>r. cell r i = VTs t) (rows df)"
  proof (rule filter_cong [OF refl])
    fix r
    show "(case cell r i of VTs t' \<Rightarrow> cast_timestamp (str_datetime t) = Some t' | _ \<Rightarrow> False) =
          (cell r i = VTs t)"
      unfolding cast_timestamp_str_datetime [OF v] by (cases "cell r i") auto
  qed
  then have "filter_string df (''etl_inserted = '' @ [CHR 0x27] @ str_datetime t @ [CHR 0x27]) =
      Inr \<lparr>schema = schema df, rows = filter (\<lambda>r. cell r i = VTs t) (rows df)\<rparr>"
    unfolding filter_string_etl [OF i ty clean_str_datetime] by simp
  then show ?thesis
    using wd st by (simp add: read_selected_def load_def equality_clause_def)
qed

subsection \<open>Evaluation of the examples\<close>

lemmas eval_simps =
  read_selected_def DailyOrderMetrics_read_def DailyOrderMetrics_selected_columns_def
  WideOrderItems_read_def WideOrderItems_selected_columns_def
  DailyOrderMetricsGoldETL_def WideOrderItemsGoldETL_def
  load_def selectExpr_max_def resolve_def cell_def columns_def
  dt_max_def dt_le_def dt_key_def str_datetime_def digits6_def digits4_def digits2_def
  digit_char_values is_letter_def is_digit_def digit_val_def
  filter_string_def keyword_def operator_keywords_def upper_char_def
  cast_timestamp_def cast_fraction_def nat_of_digits_def valid_datetime_def
  days_in_month_def leap_year_def select_def dataset_of_def equality_clause_def
  ex_t1_def ex_t2_def ex_t3_def ex_daily_published_def ex_daily_stored_def ex_spark_def
  ex_daily_def ex_wide_published_def ex_wide_row_def ex_wide_cached_def ex_wide_def
  ex_batches_def ex_two_values_def cast_date_string_def

lemma keep_where_simps:
  "keep_where [] xs = []" "keep_where m [] = []"
  "keep_where (b # m) (x # xs) = (if b then x # keep_where m xs else keep_where m xs)"
  by (simp_all add: keep_where_def)

lemmas transform_simps =
  DailyOrderMetrics_transform_upstream_def WideOrderItems_transform_upstream_def
  DailyOrderMetricsGoldETL_def WideOrderItemsGoldETL_def dataset_of_def
  withColumn_def filter_column_def groupBy_agg_def first_occurrences_def fresh_cid_def
  join_def remove_nth_def pad_def drop_column_def keep_where_simps getitem_def item_def
  datetime_now_def columns_def resolve_def cell_def Let_def
  ex_t1_def ex_t2_def ex_t3_def ex_daily_def ex_wide_orders_def ex_clock_def
  ex_fact_order_items_def ex_dim_product_def ex_dim_seller_def ex_product_category_def
  ex_dim_category_def ex_wide_unit_def ex_upstream_datasets_def ex_daily_output_def
  ex_wide_output_def

lemma ex_read_latest:
  "DailyOrderMetrics_read (ex_daily True) None ex_spark =
     Inr (dataset_of (ex_daily True)
            \<lparr>schema = ex_daily_published,
             rows = [[VDate (Date 2024 1 15), VNum 9, VNum 9, VTs ex_t3]]\<rparr>)"
  by (simp add: eval_simps)

lemma ex_read_partition:
  "DailyOrderMetrics_read (ex_daily True) (Some [(''etl_inserted'', ''2024-01-15 10:30:00'')])
     ex_spark =
     Inr (dataset_of (ex_daily True)
            \<lparr>schema = ex_daily_published,
             rows = [[VDate (Date 2024 1 14), VNum 50, VNum 25, VTs ex_t1],
                     [VDate (Date 2024 1 15), VNum 7, VNum 7, VTs ex_t1]]\<rparr>)"
  by (simp add: eval_simps)

lemma ex_read_cached:
  "WideOrderItems_read ex_wide None ex_spark =
     Inr (dataset_of ex_wide \<lparr>schema = ex_wide_published, rows = [ex_wide_row]\<rparr>)"
  by (simp add: eval_simps)

lemma ex_daily_transform:
  "DailyOrderMetrics_transform_upstream (ex_daily w) [dataset_of (ex_daily w) ex_wide_orders]
     ex_clock =
   Inr (dataset_of (ex_daily w) ex_daily_output,
        (ex_daily w)\<lparr>self_current_data := Some ex_daily_output\<rparr>,
        ex_clock\<lparr>taken := 1\<rparr>)"
  by (simp add: transform_simps)

lemma ex_wide_transform:
  "WideOrderItems_transform_upstream (ex_wide_unit w) ex_upstream_datasets ex_clock =
   Inr (dataset_of (ex_wide_unit w) ex_wide_output,
        (ex_wide_unit w)\<lparr>self_current_data := Some ex_wide_output\<rparr>,
        ex_clock\<lparr>taken := 1\<rparr>)"
  by (simp add: transform_simps)

lemmas extract_simps =
  extract_upstream_def WideOrderItemsGoldETL_def DailyOrderMetricsGoldETL_def
  ex_three_def ex_class_def ex_root_def ex_wide_orders_class_def ex_unit_class_def
  unit_self_def Let_def

lemma ex_three_extract:
  "extract_upstream (ex_three True) (0, []) =
     Inr ([ex_envelope ''A+'', ex_envelope ''B+'', ex_envelope ''C+''], 9,
          [Construct ''A'' True True, Run ''A'', Read ''A'',
           Construct ''B'' True True, Run ''B'', Read ''B'',
           Construct ''C'' True True, Run ''C'', Read ''C''])"
  by (simp add: extract_simps)




lemma ex_read_two_values:
  "str_join '' AND'' (map equality_clause ex_two_values) =
     ''etl_inserted = '' @ [CHR 0x27] @ ''2024-01-15 10:30:00'' @ [CHR 0x27] @
     '' ANDorder_date = '' @ [CHR 0x27] @ ''2024-01-15'' @ [CHR 0x27]"
  "DailyOrderMetrics_read (ex_daily True) (Some ex_two_values) ex_spark = Inl ParseException"
  "filter_string ex_daily_stored
     (''etl_inserted = '' @ [CHR 0x27] @ ''2024-01-15 10:30:00'' @ [CHR 0x27] @
      '' AND order_date = '' @ [CHR 0x27] @ ''2024-01-15'' @ [CHR 0x27]) =
   Inr \<lparr>schema = schema ex_daily_stored,
        rows = [[VDate (Date 2024 1 15), VNum 7, VNum 7, VTs ex_t1, VStr ''b'']]\<rparr>"
  by (simp_all add: eval_simps)

section \<open>The claims\<close>

text \<open>
  C8. For both gold units and in every mode of \<^verbatim>\<open>read\<close> (the cached data, an explicit
  partition filter, the probe for the latest partition), the data of the envelope that
  \<^verbatim>\<open>read\<close> returns has exactly the published columns of the unit, in their published
  order, whatever columns the cached or stored data has.
\<close>

theorem read_published_columns:
  "(DailyOrderMetrics_read self pv spark = Inr ds \<longrightarrow>
      columns (current_data ds) =
        [''order_date'', ''total_price_sum'', ''total_price_mean'', ''etl_inserted'']) \<and>
   (WideOrderItems_read self' pv' spark' = Inr ds' \<longrightarrow>
      columns (current_data ds') =
        [''order_item_id'', ''order_id'', ''product_id'', ''seller_id'', ''quantity'',
         ''base_price'', ''actual_price'', ''created_ts'', ''tax'', ''categories'',
         ''etl_inserted''])"
proof (intro conjI impI)
  assume "DailyOrderMetrics_read self pv spark = Inr ds"
  then have "map col (columns (current_data ds)) = DailyOrderMetrics_selected_columns"
    unfolding DailyOrderMetrics_read_def by (rule read_selected_columns)
  then show "columns (current_data ds) =
      [''order_date'', ''total_price_sum'', ''total_price_mean'', ''etl_inserted'']"
    by (auto simp: DailyOrderMetrics_selected_columns_def)
next
  assume "WideOrderItems_read self' pv' spark' = Inr ds'"
  then have "map col (columns (current_data ds')) = WideOrderItems_selected_columns"
    unfolding WideOrderItems_read_def by (rule read_selected_columns)
  then show "columns (current_data ds') =
      [''order_item_id'', ''order_id'', ''product_id'', ''seller_id'', ''quantity'',
       ''base_price'', ''actual_price'', ''created_ts'', ''tax'', ''categories'',
       ''etl_inserted'']"
    by (auto simp: WideOrderItems_selected_columns_def)
qed

theorem read_published_columns_witness:
  "DailyOrderMetrics_read (ex_daily True) None ex_spark =
     Inr (dataset_of (ex_daily True)
            \<lparr>schema = ex_daily_published,
             rows = [[VDate (Date 2024 1 15), VNum 9, VNum 9, VTs ex_t3]]\<rparr>) \<and>
   columns (current_data (dataset_of (ex_daily True)
            \<lparr>schema = ex_daily_published,
             rows = [[VDate (Date 2024 1 15), VNum 9, VNum 9, VTs ex_t3]]\<rparr>)) =
     [''order_date'', ''total_price_sum'', ''total_price_mean'', ''etl_inserted''] \<and>
   WideOrderItems_read ex_wide None ex_spark =
     Inr (dataset_of ex_wide \<lparr>schema = ex_wide_published, rows = [ex_wide_row]\<rparr>) \<and>
   columns (current_data
      (dataset_of ex_wide \<lparr>schema = ex_wide_published, rows = [ex_wide_row]\<rparr>)) =
     [''order_item_id'', ''order_id'', ''product_id'', ''seller_id'', ''quantity'',
      ''base_price'', ''actual_price'', ''created_ts'', ''tax'', ''categories'',
      ''etl_inserted'']"
  using read_published_columns [THEN conjunct1, rule_format, OF ex_read_latest]
    read_published_columns [THEN conjunct2, rule_format, OF ex_read_cached]
    ex_read_latest ex_read_cached
  by (intro conjI)

text \<open>
  C6. Each call of \<^verbatim>\<open>transform_upstream\<close>, of either gold unit, reads the clock exactly once,
  and the \<^verbatim>\<open>etl_inserted\<close> column of its output holds that one reading in every row.
\<close>

theorem single_ingestion_timestamp:
  "(DailyOrderMetrics_transform_upstream self dss clk = Inr (ds, self1, clk1) \<longrightarrow>
      clk1 = clk\<lparr>taken := Suc (taken clk)\<rparr> \<and>
      column_values (current_data ds) ''etl_inserted'' =
        Inr (replicate (length (rows (current_data ds))) (VTs (readings clk (taken clk))))) \<and>
   (WideOrderItems_transform_upstream self' dss' clk' = Inr (ds', self1', clk1') \<longrightarrow>
      clk1' = clk'\<lparr>taken := Suc (taken clk')\<rparr> \<and>
      column_values (current_data ds') ''etl_inserted'' =
        Inr (replicate (length (rows (current_data ds'))) (VTs (readings clk' (taken clk')))))"
proof (intro conjI impI)
  assume a: "DailyOrderMetrics_transform_upstream self dss clk = Inr (ds, self1, clk1)"
  from daily_transform_shape [OF a] obtain daily where
    cols: "columns daily = [''order_date'', ''total_price_sum'', ''total_price_mean'']"
    and len: "\<And>r. r \<in> set (rows daily) \<Longrightarrow> length r = 3"
    and cd: "current_data ds =
       \<lparr>schema = schema daily @ [\<lparr>cid = fresh_cid (schema daily), cname = ''etl_inserted''\<rparr>],
        rows = map (\<lambda>r. r @ [VTs (readings clk (taken clk))]) (rows daily)\<rparr>"
    and clk: "clk1 = clk\<lparr>taken := Suc (taken clk)\<rparr>"
    by blast
  show "clk1 = clk\<lparr>taken := Suc (taken clk)\<rparr>" by (rule clk)
  have "length (columns daily) = 3" unfolding cols by simp
  then have n: "length (schema daily) = 3" by (simp add: columns_def)
  have notin: "''etl_inserted'' \<notin> set (columns daily)" unfolding cols by simp
  have e: "map (\<lambda>r. r @ [VTs (readings clk (taken clk))]) (rows daily) =
        map (\<lambda>r. pad (length (schema daily)) r @ [VTs (readings clk (taken clk))]) (rows daily)"
    using len n by (simp add: pad_id)
  have l: "length (rows (current_data ds)) = length (rows daily)"
    by (simp add: cd)
  show "column_values (current_data ds) ''etl_inserted'' =
        Inr (replicate (length (rows (current_data ds))) (VTs (readings clk (taken clk))))"
    unfolding l unfolding cd e by (rule column_values_appended [OF notin])
next
  assume a: "WideOrderItems_transform_upstream self' dss' clk' = Inr (ds', self1', clk1')"
  from wide_transform_shape [OF a] obtain base where
    notin: "''etl_inserted'' \<notin> set (columns base)"
    and cd: "current_data ds' =
       \<lparr>schema = schema base @ [\<lparr>cid = fresh_cid (schema base), cname = ''etl_inserted''\<rparr>],
        rows = map (\<lambda>r. pad (length (schema base)) r @ [VTs (readings clk' (taken clk'))])
                 (rows base)\<rparr>"
    and clk: "clk1' = clk'\<lparr>taken := Suc (taken clk')\<rparr>"
    by blast
  show "clk1' = clk'\<lparr>taken := Suc (taken clk')\<rparr>" by (rule clk)
  have l: "length (rows (current_data ds')) = length (rows base)"
    by (simp add: cd)
  show "column_values (current_data ds') ''etl_inserted'' =
        Inr (replicate (length (rows (current_data ds'))) (VTs (readings clk' (taken clk'))))"
    unfolding l unfolding cd by (rule column_values_appended [OF notin])
qed

theorem single_ingestion_timestamp_witness:
  "DailyOrderMetrics_transform_upstream (ex_daily False)
     [dataset_of (ex_daily False) ex_wide_orders] ex_clock =
   Inr (dataset_of (ex_daily False) ex_daily_output,
        (ex_daily False)\<lparr>self_current_data := Some ex_daily_output\<rparr>,
        ex_clock\<lparr>taken := 1\<rparr>) \<and>
   ex_clock\<lparr>taken := 1\<rparr> = ex_clock\<lparr>taken := Suc (taken ex_clock)\<rparr> \<and>
   column_values (current_data (dataset_of (ex_daily False) ex_daily_output)) ''etl_inserted'' =
     Inr (replicate (length (rows (current_data (dataset_of (ex_daily False) ex_daily_output))))
            (VTs (readings ex_clock (taken ex_clock)))) \<and>
   WideOrderItems_transform_upstream (ex_wide_unit False) ex_upstream_datasets ex_clock =
   Inr (dataset_of (ex_wide_unit False) ex_wide_output,
        (ex_wide_unit False)\<lparr>self_current_data := Some ex_wide_output\<rparr>,
        ex_clock\<lparr>taken := 1\<rparr>) \<and>
   column_values (current_data (dataset_of (ex_wide_unit False) ex_wide_output)) ''etl_inserted'' =
     Inr (replicate (length (rows (current_data (dataset_of (ex_wide_unit False) ex_wide_output))))
            (VTs (readings ex_clock (taken ex_clock))))"
  using single_ingestion_timestamp [THEN conjunct1, rule_format, OF ex_daily_transform]
    single_ingestion_timestamp [THEN conjunct2, rule_format, OF ex_wide_transform]
    ex_daily_transform ex_wide_transform
  by (intro conjI) blast+

text \<open>
  C7. In the transform of the wide order items every one of the five upstream tables
  carries one \<^verbatim>\<open>etl_inserted\<close> column, and the output has exactly one column of that name:
  the last one, which holds the timestamp taken by this transform in every row. So none of
  the upstream ingestion columns is left in the output schema.
\<close>

theorem wide_single_etl_inserted:
  assumes "WideOrderItems_transform_upstream self dss clk = Inr (ds, self1, clk1)"
  shows "(\<forall>i<5. count_list (columns (current_data (dss ! i))) ''etl_inserted'' = 1) \<and>
         count_list (columns (current_data ds)) ''etl_inserted'' = 1 \<and>
         last (columns (current_data ds)) = ''etl_inserted'' \<and>
         (\<forall>r \<in> set (rows (current_data ds)).
            length r = length (columns (current_data ds)) \<and>
            last r = VTs (readings clk (taken clk)))"
proof -
  have up: "\<forall>i<5. count_list (columns (current_data (dss ! i))) ''etl_inserted'' = 1"
  proof (rule wide_transform_steps [OF assms])
    fix j1 w2 j2 c_cat c_brg grain w3 c_fact c_prod c_sell
    assume c4: "getitem (current_data (dss ! 4)) ''etl_inserted'' = Inr c_cat"
      and c3: "getitem (current_data (dss ! 3)) ''etl_inserted'' = Inr c_brg"
      and c0: "getitem (current_data (dss ! 0)) ''etl_inserted'' = Inr c_fact"
      and c1: "getitem (current_data (dss ! 1)) ''etl_inserted'' = Inr c_prod"
      and c2: "getitem (current_data (dss ! 2)) ''etl_inserted'' = Inr c_sell"
    have "\<And>i. i < 5 \<Longrightarrow> i = 0 \<or> i = 1 \<or> i = 2 \<or> i = 3 \<or> i = (4::nat)" by arith
    then show ?thesis
      using getitem_count [OF c0] getitem_count [OF c1] getitem_count [OF c2]
        getitem_count [OF c3] getitem_count [OF c4] by metis
  qed
  from wide_transform_shape [OF assms] obtain base where
    notin: "''etl_inserted'' \<notin> set (columns base)"
    and cd: "current_data ds =
       \<lparr>schema = schema base @ [\<lparr>cid = fresh_cid (schema base), cname = ''etl_inserted''\<rparr>],
        rows = map (\<lambda>r. pad (length (schema base)) r @ [VTs (readings clk (taken clk))])
                 (rows base)\<rparr>"
    by blast
  have cols: "columns (current_data ds) = columns base @ [''etl_inserted'']"
    unfolding cd by (simp add: columns_def)
  have "count_list (columns (current_data ds)) ''etl_inserted'' = 1"
    unfolding cols using notin by simp
  moreover have "last (columns (current_data ds)) = ''etl_inserted''"
    unfolding cols by simp
  moreover have "\<forall>r \<in> set (rows (current_data ds)).
            length r = length (columns (current_data ds)) \<and>
            last r = VTs (readings clk (taken clk))"
    unfolding cols unfolding cd by (auto simp: columns_def)
  ultimately show ?thesis using up by blast
qed

theorem wide_single_etl_inserted_witness:
  "WideOrderItems_transform_upstream (ex_wide_unit False) ex_upstream_datasets ex_clock =
   Inr (dataset_of (ex_wide_unit False) ex_wide_output,
        (ex_wide_unit False)\<lparr>self_current_data := Some ex_wide_output\<rparr>,
        ex_clock\<lparr>taken := 1\<rparr>) \<and>
   count_list (columns (current_data (ex_upstream_datasets ! 0))) ''etl_inserted'' = 1 \<and>
   count_list (columns (current_data (ex_upstream_datasets ! 1))) ''etl_inserted'' = 1 \<and>
   count_list (columns (current_data (ex_upstream_datasets ! 2))) ''etl_inserted'' = 1 \<and>
   count_list (columns (current_data (ex_upstream_datasets ! 3))) ''etl_inserted'' = 1 \<and>
   count_list (columns (current_data (ex_upstream_datasets ! 4))) ''etl_inserted'' = 1 \<and>
   count_list (columns (current_data (dataset_of (ex_wide_unit False) ex_wide_output)))
     ''etl_inserted'' = 1 \<and>
   last (columns (current_data (dataset_of (ex_wide_unit False) ex_wide_output))) =
     ''etl_inserted'' \<and>
   list_all (\<lambda>r.
      length r = length (columns (current_data (dataset_of (ex_wide_unit False) ex_wide_output))) \<and>
      last r = VTs (readings ex_clock (taken ex_clock)))
     (rows (current_data (dataset_of (ex_wide_unit False) ex_wide_output)))"
proof -
  note w = wide_single_etl_inserted [OF ex_wide_transform]
  from w have up: "\<And>i. i < 5 \<Longrightarrow>
      count_list (columns (current_data (ex_upstream_datasets ! i))) ''etl_inserted'' = 1"
    by blast
  have "(0::nat) < 5" "(1::nat) < 5" "(2::nat) < 5" "(3::nat) < 5" "(4::nat) < 5"
    by simp_all
  note ups = this [THEN up]
  from w have rest:
    "count_list (columns (current_data (dataset_of (ex_wide_unit False) ex_wide_output)))
       ''etl_inserted'' = 1"
    "last (columns (current_data (dataset_of (ex_wide_unit False) ex_wide_output))) =
       ''etl_inserted''"
    "list_all (\<lambda>r.
      length r = length (columns (current_data (dataset_of (ex_wide_unit False) ex_wide_output))) \<and>
      last r = VTs (readings ex_clock (taken ex_clock)))
     (rows (current_data (dataset_of (ex_wide_unit False) ex_wide_output)))"
    unfolding list_all_iff by blast+
  from ex_wide_transform ups rest show ?thesis by (intro conjI)
qed



text \<open>
  C10. A daily-metrics unit built with the defaults of its class declares the primary key
  \<^verbatim>\<open>order_ts\<close>. Every envelope its \<^verbatim>\<open>transform_upstream\<close> or its \<^verbatim>\<open>read\<close> returns carries
  that declaration, while the columns of its data are exactly \<^verbatim>\<open>order_date\<close>,
  \<^verbatim>\<open>total_price_sum\<close>, \<^verbatim>\<open>total_price_mean\<close> and \<^verbatim>\<open>etl_inserted\<close>: the declared key column is
  not a column of the data.
\<close>

theorem daily_primary_key_absent_from_data:
  "(DailyOrderMetrics_transform_upstream
       ((DailyOrderMetricsGoldETL upstream_tables run_upstream write_data)
          \<lparr>self_current_data := cached\<rparr>) dss clk = Inr (ds, self1, clk1) \<longrightarrow>
      primary_keys ds = [''order_ts''] \<and>
      columns (current_data ds) =
        [''order_date'', ''total_price_sum'', ''total_price_mean'', ''etl_inserted''] \<and>
      ''order_ts'' \<notin> set (columns (current_data ds))) \<and>
   (DailyOrderMetrics_read
       ((DailyOrderMetricsGoldETL upstream_tables' run_upstream' write_data')
          \<lparr>self_current_data := cached'\<rparr>) pv spark = Inr ds' \<longrightarrow>
      primary_keys ds' = [''order_ts''] \<and>
      columns (current_data ds') =
        [''order_date'', ''total_price_sum'', ''total_price_mean'', ''etl_inserted''] \<and>
      ''order_ts'' \<notin> set (columns (current_data ds')))"
proof (intro conjI impI)
  let ?self = "(DailyOrderMetricsGoldETL upstream_tables run_upstream write_data)
          \<lparr>self_current_data := cached\<rparr>"
  assume a: "DailyOrderMetrics_transform_upstream ?self dss clk = Inr (ds, self1, clk1)"
  note out = daily_transform_output [OF a]
  have "primary_keys (dataset_of ?self (current_data ds)) = [''order_ts'']"
    by (simp add: dataset_of_def DailyOrderMetricsGoldETL_def)
  then show "primary_keys ds = [''order_ts'']" using out(3) by simp
  show c: "columns (current_data ds) =
        [''order_date'', ''total_price_sum'', ''total_price_mean'', ''etl_inserted'']"
    by (rule out(1))
  show "''order_ts'' \<notin> set (columns (current_data ds))" unfolding c by simp
next
  let ?self = "(DailyOrderMetricsGoldETL upstream_tables' run_upstream' write_data')
          \<lparr>self_current_data := cached'\<rparr>"
  assume a: "DailyOrderMetrics_read ?self pv spark = Inr ds'"
  then have r: "read_selected DailyOrderMetrics_selected_columns ?self pv spark = Inr ds'"
    by (simp only: DailyOrderMetrics_read_def)
  from read_selected_envelope [OF r]
  show "primary_keys ds' = [''order_ts'']"
    by (simp add: DailyOrderMetricsGoldETL_def)
  from read_selected_columns [OF r]
  show c: "columns (current_data ds') =
        [''order_date'', ''total_price_sum'', ''total_price_mean'', ''etl_inserted'']"
    by (auto simp: DailyOrderMetrics_selected_columns_def)
  show "''order_ts'' \<notin> set (columns (current_data ds'))" unfolding c by simp
qed

theorem daily_primary_key_absent_from_data_witness:
  "DailyOrderMetrics_transform_upstream
     ((DailyOrderMetricsGoldETL None True False :: (unit, unit) TableETL)
        \<lparr>self_current_data := None\<rparr>)
     [dataset_of (ex_daily False) ex_wide_orders] ex_clock =
   Inr (dataset_of (ex_daily False) ex_daily_output,
        (ex_daily False)\<lparr>self_current_data := Some ex_daily_output\<rparr>,
        ex_clock\<lparr>taken := 1\<rparr>) \<and>
   primary_keys (dataset_of (ex_daily False) ex_daily_output) = [''order_ts''] \<and>
   ''order_ts'' \<notin> set (columns (current_data (dataset_of (ex_daily False) ex_daily_output))) \<and>
   DailyOrderMetrics_read
     ((DailyOrderMetricsGoldETL None True True :: (unit, unit) TableETL)
        \<lparr>self_current_data := None\<rparr>) None ex_spark =
     Inr (dataset_of (ex_daily True)
            \<lparr>schema = ex_daily_published,
             rows = [[VDate (Date 2024 1 15), VNum 9, VNum 9, VTs ex_t3]]\<rparr>) \<and>
   primary_keys (dataset_of (ex_daily True)
            \<lparr>schema = ex_daily_published,
             rows = [[VDate (Date 2024 1 15), VNum 9, VNum 9, VTs ex_t3]]\<rparr>) = [''order_ts''] \<and>
   ''order_ts'' \<notin> set (columns (current_data (dataset_of (ex_daily True)
            \<lparr>schema = ex_daily_published,
             rows = [[VDate (Date 2024 1 15), VNum 9, VNum 9, VTs ex_t3]]\<rparr>)))"
proof -
  have u: "\<And>w. ((DailyOrderMetricsGoldETL None True w :: (unit, unit) TableETL)
        \<lparr>self_current_data := None\<rparr>) = ex_daily w"
    by (simp add: ex_daily_def DailyOrderMetricsGoldETL_def)
  have t: "DailyOrderMetrics_transform_upstream
     ((DailyOrderMetricsGoldETL None True False :: (unit, unit) TableETL)
        \<lparr>self_current_data := None\<rparr>)
     [dataset_of (ex_daily False) ex_wide_orders] ex_clock =
   Inr (dataset_of (ex_daily False) ex_daily_output,
        (ex_daily False)\<lparr>self_current_data := Some ex_daily_output\<rparr>,
        ex_clock\<lparr>taken := 1\<rparr>)"
    unfolding u by (rule ex_daily_transform)
  have r: "DailyOrderMetrics_read
     ((DailyOrderMetricsGoldETL None True True :: (unit, unit) TableETL)
        \<lparr>self_current_data := None\<rparr>) None ex_spark =
     Inr (dataset_of (ex_daily True)
            \<lparr>schema = ex_daily_published,
             rows = [[VDate (Date 2024 1 15), VNum 9, VNum 9, VTs ex_t3]]\<rparr>)"
    unfolding u by (rule ex_read_latest)
  from daily_primary_key_absent_from_data [THEN conjunct1, rule_format, OF t]
    daily_primary_key_absent_from_data [THEN conjunct2, rule_format, OF r] t r
  show ?thesis by (intro conjI) blast+
qed

text \<open>
  C4. When \<^verbatim>\<open>extract_upstream\<close> returns, the list it returns has one envelope per declared
  upstream class, in declaration order: there is a sequence of worlds, from the one the
  call started in to the one it left, such that position \<open>i\<close> of the list is the envelope
  read from the \<open>i\<close>-th declared class (instantiated with the unit's flags, and run first
  if \<^verbatim>\<open>run_upstream\<close> is set) in the \<open>i\<close>-th world. \<^verbatim>\<open>transform_upstream\<close> of the wide order
  items takes its five inputs from the positions 0 to 4 of the list it is given.
\<close>

theorem extract_upstream_declaration_order:
  assumes "self_upstream_tables self = Some tables"
    and "extract_upstream self (w, calls) = Inr (dss, w1, calls1)"
  shows "length dss = length tables \<and>
         (\<exists>ws. length ws = Suc (length tables) \<and> ws ! 0 = w \<and> ws ! length tables = w1 \<and>
            (\<forall>i<length tables.
               spec_extract_one self (tables ! i) (ws ! i) = Inr (dss ! i, ws ! Suc i)))"
proof -
  from assms have "extract_loop self tables [] (w, calls) = Inr (dss, w1, calls1)"
    by (simp add: extract_upstream_def)
  from extract_loop_result [OF this] show ?thesis by auto
qed

theorem extract_upstream_declaration_order_witness:
  "self_upstream_tables (ex_three True) =
     Some [ex_class ''A'' 5, ex_class ''B'' 1, ex_class ''C'' 3] \<and>
   extract_upstream (ex_three True) (0, []) =
     Inr ([ex_envelope ''A+'', ex_envelope ''B+'', ex_envelope ''C+''], 9,
          [Construct ''A'' True True, Run ''A'', Read ''A'',
           Construct ''B'' True True, Run ''B'', Read ''B'',
           Construct ''C'' True True, Run ''C'', Read ''C'']) \<and>
   length [ex_envelope ''A+'', ex_envelope ''B+'', ex_envelope ''C+''] =
     length [ex_class ''A'' 5, ex_class ''B'' 1, ex_class ''C'' 3] \<and>
   (\<exists>ws. length ws = Suc (length [ex_class ''A'' 5, ex_class ''B'' 1, ex_class ''C'' 3]) \<and>
      ws ! 0 = 0 \<and> ws ! length [ex_class ''A'' 5, ex_class ''B'' 1, ex_class ''C'' 3] = 9 \<and>
      (\<forall>i<length [ex_class ''A'' 5, ex_class ''B'' 1, ex_class ''C'' 3].
         spec_extract_one (ex_three True)
           ([ex_class ''A'' 5, ex_class ''B'' 1, ex_class ''C'' 3] ! i) (ws ! i) =
         Inr ([ex_envelope ''A+'', ex_envelope ''B+'', ex_envelope ''C+''] ! i, ws ! Suc i)))"
proof -
  have t: "self_upstream_tables (ex_three True) =
     Some [ex_class ''A'' 5, ex_class ''B'' 1, ex_class ''C'' 3]"
    by (simp add: ex_three_def WideOrderItemsGoldETL_def)
  from extract_upstream_declaration_order [OF t ex_three_extract] t ex_three_extract
  show ?thesis by (intro conjI) blast+
qed







text \<open>
  C2. With a dictionary of two entries the filter that \<^verbatim>\<open>read\<close> builds is not a conjunction:
  \<^verbatim>\<open>" AND".join\<close> puts no blank after \<^verbatim>\<open>AND\<close>, so the second column name runs into the
  keyword, and Spark rejects the string. The same two comparisons joined by \<^verbatim>\<open>" AND "\<close>
  select the one stored row that satisfies both.
\<close>

theorem read_two_partition_values_raises:
  "str_join '' AND'' (map equality_clause ex_two_values) =
     ''etl_inserted = '' @ [CHR 0x27] @ ''2024-01-15 10:30:00'' @ [CHR 0x27] @
     '' ANDorder_date = '' @ [CHR 0x27] @ ''2024-01-15'' @ [CHR 0x27] \<and>
   DailyOrderMetrics_read (ex_daily True) (Some ex_two_values) ex_spark = Inl ParseException \<and>
   filter_string ex_daily_stored
     (''etl_inserted = '' @ [CHR 0x27] @ ''2024-01-15 10:30:00'' @ [CHR 0x27] @
      '' AND order_date = '' @ [CHR 0x27] @ ''2024-01-15'' @ [CHR 0x27]) =
   Inr \<lparr>schema = schema ex_daily_stored,
        rows = [[VDate (Date 2024 1 15), VNum 7, VNum 7, VTs ex_t1, VStr ''b'']]\<rparr>"
  using ex_read_two_values by (intro conjI)

end
